theory Spec2Isabelle
  imports Main
begin

section \<open>Signed source lists of dnscrypt-proxy: \<^verbatim>\<open>dnscrypt-proxy/sources.go\<close>\<close>

text \<open>
  A shallow embedding of \<^verbatim>\<open>sources.go\<close>. The Go code reads and writes files, talks to
  the network and mutates the \<^verbatim>\<open>Source\<close> it is called on. The model passes these
  effects explicitly: a \<open>world\<close> holds the file system, the log of HTTP requests and the
  log of attempted file writes, and every function returns the updated world and the updated
  \<open>Source\<close>. Go's \<^verbatim>\<open>error\<close> results are values of the type \<open>error\<close>;
  \<^verbatim>\<open>nil\<close> is \<open>None\<close>.
\<close>

subsection \<open>Time\<close>

text \<open>
  \<^verbatim>\<open>time.Duration\<close> is an \<^verbatim>\<open>int64\<close> count of nanoseconds. It is modelled as an
  \<open>int\<close>; the one arithmetic operation of the source on durations (the subtraction in
  \<^verbatim>\<open>fetchFromCache\<close>) wraps around through \<open>int64\<close>. A \<^verbatim>\<open>time.Time\<close> is
  modelled as the number of nanoseconds since Go's zero time, without the bounds of Go's
  representation and without its monotonic clock reading.
\<close>

type_synonym Duration = int
type_synonym Time = int

definition int64 :: "int \<Rightarrow> int" where
  "int64 x = (x + 2 ^ 63) mod 2 ^ 64 - 2 ^ 63"

definition minDuration :: Duration where
  "minDuration = - (2 ^ 63)"

definition maxDuration :: Duration where
  "maxDuration = 2 ^ 63 - 1"

definition Minute :: Duration where
  "Minute = 60 * 1000000000"

definition Hour :: Duration where
  "Hour = 60 * Minute"

definition DefaultPrefetchDelay :: Duration where
  "DefaultPrefetchDelay = 24 * Hour"

definition MinimumPrefetchInterval :: Duration where
  "MinimumPrefetchInterval = 10 * Minute"

text \<open>\<^verbatim>\<open>t.Sub(u)\<close> saturates at the smallest and the largest duration.\<close>

definition Time_Sub :: "Time \<Rightarrow> Time \<Rightarrow> Duration" where
  "Time_Sub t u =
     (let d = t - u
      in if d < minDuration then minDuration
         else if maxDuration < d then maxDuration
         else d)"

definition Time_Add :: "Time \<Rightarrow> Duration \<Rightarrow> Time" where
  "Time_Add t d = t + d"

definition Time_IsZero :: "Time \<Rightarrow> bool" where
  "Time_IsZero t = (t = 0)"

definition Time_After :: "Time \<Rightarrow> Time \<Rightarrow> bool" where
  "Time_After t u = (u < t)"

subsection \<open>Data\<close>

type_synonym bytes = string

text \<open>
  Of a \<^verbatim>\<open>url.URL\<close> the code touches the \<^verbatim>\<open>Path\<close> only; the other fields are copied
  as they are.
\<close>

record URL =
  Scheme :: string
  Host :: string
  Path :: string
  RawQuery :: string

text \<open>The key, the decoded signature and the decoded stamp are opaque to this code.\<close>

type_synonym PublicKey = string
type_synonym Signature = string
type_synonym ServerStamp = string

datatype error =
    ReadFileError string
  | StatError string
  | WriteFileError string
  | External string
  | UnsupportedFormat string
  | InvalidFormat "URL list"
  | StampErrors string

type_synonym SourceFormat = int

definition SourceFormatV2 :: SourceFormat where
  "SourceFormatV2 = 0"

record Source =
  name :: string
  urls :: "URL list"
  format :: SourceFormat
  in_data :: bytes
  minisignKey :: "PublicKey option"
  cacheFile :: string
  cacheTTL :: Duration
  prefetchDelay :: Duration
  refresh :: Time

record RegisteredServer =
  server_name :: string
  server_stamp :: ServerStamp
  server_description :: string

subsection \<open>The collaborators outside this file\<close>

text \<open>
  The libraries \<^verbatim>\<open>go-minisign\<close>, \<^verbatim>\<open>go-dnsstamps\<close> and \<^verbatim>\<open>net/url\<close>, and the constant
  \<^verbatim>\<open>MaxHTTPBodyLength\<close> declared elsewhere in the package, are parameters of the model.
  \<^verbatim>\<open>Verify\<close> receives the pointer \<^verbatim>\<open>source.minisignKey\<close>, which is \<^verbatim>\<open>nil\<close> until
  \<^verbatim>\<open>NewSource\<close> has decoded the key; only its error result is used by the code.
\<close>

record externals =
  DecodeSignature :: "string \<Rightarrow> error + Signature"
  Verify :: "PublicKey option \<Rightarrow> bytes \<Rightarrow> Signature \<Rightarrow> error option"
  NewPublicKey :: "string \<Rightarrow> error + PublicKey"
  url_Parse :: "string \<Rightarrow> error + URL"
  NewServerStampFromString :: "string \<Rightarrow> string + ServerStamp"
  MaxHTTPBodyLength :: nat

text \<open>
  \<^verbatim>\<open>xTransport.Get\<close> either fails or gives a response, whose body is a stream: the bytes
  that arrive and the error, if any, that ends them.
\<close>

record XTransport =
  Get :: "URL \<Rightarrow> error + (bytes \<times> error option)"

text \<open>
  The world: the content and the modification time of every file, the paths that cannot be
  written, the clock that stamps written files, and two logs kept for the proofs: the URLs
  requested and the paths whose write was attempted, oldest first.
\<close>

record world =
  files :: "string \<rightharpoonup> bytes"
  modTimes :: "string \<rightharpoonup> Time"
  writeFails :: "string \<Rightarrow> bool"
  fsClock :: Time
  requests :: "URL list"
  writeAttempts :: "string list"

text \<open>
  \<^verbatim>\<open>safefile.WriteFile\<close> writes a temporary file and renames it over the target: the
  target is replaced as a whole or stays as it was.
\<close>

definition WriteFile :: "world \<Rightarrow> string \<Rightarrow> bytes \<Rightarrow> world \<times> error option" where
  "WriteFile w f data =
     (let w1 = w\<lparr>writeAttempts := writeAttempts w @ [f]\<rparr>
      in if writeFails w f then (w1, Some (WriteFileError f))
         else (w1\<lparr>files := (files w)(f \<mapsto> data),
                  modTimes := (modTimes w)(f \<mapsto> fsClock w)\<rparr>, None))"

subsection \<open>Signature check\<close>

definition checkSignature :: "externals \<Rightarrow> Source \<Rightarrow> bytes \<Rightarrow> bytes \<Rightarrow> error option" where
  "checkSignature ext source bin sig =
     (case DecodeSignature ext sig of
        Inl err \<Rightarrow> Some err
      | Inr signature \<Rightarrow> Verify ext (minisignKey source) bin signature)"

subsection \<open>Cache\<close>

text \<open>The result is the source, the delay and the error; the delay is 0 unless assigned.\<close>

definition fetchFromCache ::
  "externals \<Rightarrow> world \<Rightarrow> Time \<Rightarrow> Source \<Rightarrow> Source \<times> Duration \<times> error option" where
  "fetchFromCache ext w now source =
     (case files w (cacheFile source) of
        None \<Rightarrow> (source, 0, Some (ReadFileError (cacheFile source)))
      | Some bin \<Rightarrow>
          (case files w (cacheFile source @ ''.minisig'') of
             None \<Rightarrow> (source, 0, Some (ReadFileError (cacheFile source @ ''.minisig'')))
           | Some sig \<Rightarrow>
               (case checkSignature ext source bin sig of
                  Some err \<Rightarrow> (source, 0, Some err)
                | None \<Rightarrow>
                    (let source1 = source\<lparr>in_data := bin\<rparr>
                     in case modTimes w (cacheFile source) of
                          None \<Rightarrow> (source1, 0, Some (StatError (cacheFile source)))
                        | Some modTime \<Rightarrow>
                            (let elapsed = Time_Sub now modTime
                             in if elapsed < cacheTTL source
                                then (source1, int64 (prefetchDelay source - elapsed), None)
                                else (source1, 0, None))))))"

text \<open>The deferred function of \<^verbatim>\<open>writeToCache\<close> only logs.\<close>

definition writeToCache :: "world \<Rightarrow> Source \<Rightarrow> bytes \<Rightarrow> bytes \<Rightarrow> world \<times> error option" where
  "writeToCache w source bin sig =
     (let f = cacheFile source
      in case WriteFile w f bin of
           (w1, Some err) \<Rightarrow> (w1, Some err)
         | (w1, None) \<Rightarrow>
             (case WriteFile w1 (f @ ''.minisig'') sig of
                (w2, Some err) \<Rightarrow> (w2, Some err)
              | (w2, None) \<Rightarrow> (w2, None)))"

subsection \<open>Network\<close>

fun parseURLs :: "externals \<Rightarrow> Source \<Rightarrow> string list \<Rightarrow> Source" where
  "parseURLs ext source [] = source"
| "parseURLs ext source (urlStr # rest) =
     (case url_Parse ext urlStr of
        Inl err \<Rightarrow> parseURLs ext source rest
      | Inr srcURL \<Rightarrow> parseURLs ext (source\<lparr>urls := urls source @ [srcURL]\<rparr>) rest)"

text \<open>
  \<^verbatim>\<open>ioutil.ReadAll(io.LimitReader(resp.Body, MaxHTTPBodyLength))\<close>: a body of at least
  \<^verbatim>\<open>MaxHTTPBodyLength\<close> bytes is cut there, without error; a shorter one is returned
  with the error that ended it.
\<close>

definition fetchFromURL ::
  "externals \<Rightarrow> XTransport \<Rightarrow> world \<Rightarrow> URL \<Rightarrow> world \<times> bytes \<times> error option" where
  "fetchFromURL ext xTransport w u =
     (let w1 = w\<lparr>requests := requests w @ [u]\<rparr>
      in case Get xTransport u of
           Inl err \<Rightarrow> (w1, [], Some err)
         | Inr (body, readErr) \<Rightarrow>
             (if MaxHTTPBodyLength ext \<le> length body
              then (w1, take (MaxHTTPBodyLength ext) body, None)
              else (w1, body, readErr)))"

text \<open>
  The loop over \<^verbatim>\<open>source.urls\<close> in \<^verbatim>\<open>fetchWithCache\<close>, with the variables it assigns:
  \<^verbatim>\<open>bin\<close>, \<^verbatim>\<open>sig\<close> and \<^verbatim>\<open>err\<close>.
\<close>

fun fetchLoop ::
  "externals \<Rightarrow> XTransport \<Rightarrow> Source \<Rightarrow> URL list \<Rightarrow> world \<times> bytes \<times> bytes \<times> error option
     \<Rightarrow> world \<times> bytes \<times> bytes \<times> error option" where
  "fetchLoop ext xTransport source [] st = st"
| "fetchLoop ext xTransport source (srcURL # rest) (w, bin, sig, err) =
     (let sigURL = srcURL\<lparr>Path := Path srcURL @ ''.minisig''\<rparr>
      in case fetchFromURL ext xTransport w srcURL of
           (w1, bin1, Some err1) \<Rightarrow> fetchLoop ext xTransport source rest (w1, bin1, sig, Some err1)
         | (w1, bin1, None) \<Rightarrow>
             (case fetchFromURL ext xTransport w1 sigURL of
                (w2, sig1, Some err2) \<Rightarrow>
                  fetchLoop ext xTransport source rest (w2, bin1, sig1, Some err2)
              | (w2, sig1, None) \<Rightarrow>
                  (case checkSignature ext source bin1 sig1 of
                     None \<Rightarrow> (w2, bin1, sig1, None)
                   | Some err3 \<Rightarrow>
                       fetchLoop ext xTransport source rest (w2, bin1, sig1, Some err3))))"

text \<open>
  The deferred assignment \<^verbatim>\<open>source.refresh = now.Add(delay)\<close> is registered only when
  there is a URL, and runs at each return after that.
\<close>

definition fetchWithCache ::
  "externals \<Rightarrow> XTransport \<Rightarrow> Time \<Rightarrow> world \<times> Source
     \<Rightarrow> world \<times> Source \<times> Duration \<times> error option" where
  "fetchWithCache ext xTransport now ws =
     (case ws of (w, source0) \<Rightarrow>
      (case fetchFromCache ext w now source0 of (source, delay, err) \<Rightarrow>
         if err \<noteq> None \<and> length (urls source) = 0 then (w, source, delay, err)
         else if length (urls source) = 0 then (w, source, delay, err)
         else if delay > 0
         then (w, source\<lparr>refresh := Time_Add now delay\<rparr>, delay, err)
         else
           (case fetchLoop ext xTransport source (urls source) (w, [], [], err) of
              (w1, bin, sig, Some err1) \<Rightarrow>
                (w1, source\<lparr>refresh := Time_Add now MinimumPrefetchInterval\<rparr>,
                 MinimumPrefetchInterval, Some err1)
            | (w1, bin, sig, None) \<Rightarrow>
                (let source1 = source\<lparr>in_data := bin\<rparr>;
                     w2 = fst (writeToCache w1 source1 bin sig);
                     delay1 = prefetchDelay source1
                 in (w2, source1\<lparr>refresh := Time_Add now delay1\<rparr>, delay1, None)))))"

text \<open>
  \<^verbatim>\<open>NewSource\<close>; \<open>now\<close> is the value of \<^verbatim>\<open>timeNow()\<close>. The source is returned on the
  error paths too.
\<close>

definition NewSource ::
  "externals \<Rightarrow> XTransport \<Rightarrow> Time \<Rightarrow> world \<Rightarrow> string \<Rightarrow> string list \<Rightarrow> string \<Rightarrow> string
     \<Rightarrow> string \<Rightarrow> Duration \<Rightarrow> world \<times> Source \<times> error option" where
  "NewSource ext xTransport now w nm urlStrs minisignKeyStr cacheFl formatStr refreshDelay0 =
     (let refreshDelay =
            (if refreshDelay0 < DefaultPrefetchDelay then DefaultPrefetchDelay
             else refreshDelay0);
          source = \<lparr>name = nm, urls = [], format = 0, in_data = [], minisignKey = None,
                    cacheFile = cacheFl, cacheTTL = refreshDelay,
                    prefetchDelay = DefaultPrefetchDelay, refresh = 0\<rparr>
      in if formatStr = ''v2''
         then
           (let source1 = source\<lparr>format := SourceFormatV2\<rparr>
            in case NewPublicKey ext minisignKeyStr of
                 Inr key \<Rightarrow>
                   (let source2 = source1\<lparr>minisignKey := Some key\<rparr>;
                        source3 = parseURLs ext source2 urlStrs
                    in case fetchWithCache ext xTransport now (w, source3) of
                         (w1, source4, delay, err) \<Rightarrow> (w1, source4, err))
               | Inl err \<Rightarrow> (w, source1, Some err))
         else (w, source, Some (UnsupportedFormat formatStr)))"

subsection \<open>Prefetch sweep\<close>

text \<open>
  The loop of \<^verbatim>\<open>PrefetchSources\<close> with its variable \<^verbatim>\<open>interval\<close>. The slice holds
  pointers; the model takes the sources themselves, that is, pairwise distinct pointers, and
  returns them updated.
\<close>

fun prefetchLoop ::
  "externals \<Rightarrow> XTransport \<Rightarrow> Time \<Rightarrow> Source list \<Rightarrow> world \<times> Duration
     \<Rightarrow> world \<times> Source list \<times> Duration" where
  "prefetchLoop ext xTransport now [] (w, interval) = (w, [], interval)"
| "prefetchLoop ext xTransport now (source # rest) (w, interval) =
     (if Time_IsZero (refresh source) \<or> Time_After (refresh source) now
      then (case prefetchLoop ext xTransport now rest (w, interval) of
              (w', rest', interval') \<Rightarrow> (w', source # rest', interval'))
      else
        (case fetchWithCache ext xTransport now (w, source) of
           (w1, source1, delay, Some err) \<Rightarrow>
             (case prefetchLoop ext xTransport now rest (w1, interval) of
                (w', rest', interval') \<Rightarrow> (w', source1 # rest', interval'))
         | (w1, source1, delay, None) \<Rightarrow>
             (let interval1 =
                    (if delay \<ge> MinimumPrefetchInterval \<and>
                        (interval = MinimumPrefetchInterval \<or> interval > delay)
                     then delay else interval)
              in case prefetchLoop ext xTransport now rest (w1, interval1) of
                   (w', rest', interval') \<Rightarrow> (w', source1 # rest', interval'))))"

definition PrefetchSources ::
  "externals \<Rightarrow> XTransport \<Rightarrow> Time \<Rightarrow> world \<Rightarrow> Source list \<Rightarrow> world \<times> Source list \<times> Duration" where
  "PrefetchSources ext xTransport now w sources =
     prefetchLoop ext xTransport now sources (w, MinimumPrefetchInterval)"

subsection \<open>Parsing\<close>

text \<open>\<^verbatim>\<open>strings.Split\<close> with a separator that is not empty, which is how the code calls it.\<close>

fun Split_from :: "string \<Rightarrow> string \<Rightarrow> string \<Rightarrow> string list" where
  "Split_from acc [] sep = [acc]"
| "Split_from acc (c # cs) sep =
     (if sep \<noteq> [] \<and> take (length sep) (c # cs) = sep
      then acc # Split_from [] (drop (length sep - 1) cs) sep
      else Split_from (acc @ [c]) cs sep)"

definition Split :: "string \<Rightarrow> string \<Rightarrow> string list" where
  "Split s sep = Split_from [] s sep"

fun Join :: "string list \<Rightarrow> string \<Rightarrow> string" where
  "Join [] sep = []"
| "Join [x] sep = x"
| "Join (x # y # ys) sep = x @ sep @ Join (y # ys) sep"

definition HasPrefix :: "string \<Rightarrow> string \<Rightarrow> bool" where
  "HasPrefix s p = (take (length p) s = p)"

text \<open>
  The UTF-8 encodings of the runes for which \<^verbatim>\<open>unicode.IsSpace\<close> holds: tab, line feed,
  vertical tab, form feed, carriage return, space, U+0085, U+00A0, U+1680, U+2000 to U+200A,
  U+2028, U+2029, U+202F, U+205F and U+3000.
\<close>

definition IsSpace_encodings :: "string list" where
  "IsSpace_encodings =
     [[CHR 0x09], [CHR 0x0A], [CHR 0x0B], [CHR 0x0C], [CHR 0x0D], [CHR 0x20],
      [CHR 0xC2, CHR 0x85], [CHR 0xC2, CHR 0xA0],
      [CHR 0xE1, CHR 0x9A, CHR 0x80],
      [CHR 0xE2, CHR 0x80, CHR 0x80], [CHR 0xE2, CHR 0x80, CHR 0x81],
      [CHR 0xE2, CHR 0x80, CHR 0x82], [CHR 0xE2, CHR 0x80, CHR 0x83],
      [CHR 0xE2, CHR 0x80, CHR 0x84], [CHR 0xE2, CHR 0x80, CHR 0x85],
      [CHR 0xE2, CHR 0x80, CHR 0x86], [CHR 0xE2, CHR 0x80, CHR 0x87],
      [CHR 0xE2, CHR 0x80, CHR 0x88], [CHR 0xE2, CHR 0x80, CHR 0x89],
      [CHR 0xE2, CHR 0x80, CHR 0x8A],
      [CHR 0xE2, CHR 0x80, CHR 0xA8], [CHR 0xE2, CHR 0x80, CHR 0xA9],
      [CHR 0xE2, CHR 0x80, CHR 0xAF], [CHR 0xE2, CHR 0x81, CHR 0x9F],
      [CHR 0xE3, CHR 0x80, CHR 0x80]]"

text \<open>Removes from the front every leading occurrence of one of the given encodings.\<close>

fun trimLeading :: "string list \<Rightarrow> string \<Rightarrow> string" where
  "trimLeading encs [] = []"
| "trimLeading encs (c # cs) =
     (case filter (\<lambda>e. e \<noteq> [] \<and> take (length e) (c # cs) = e) encs of
        [] \<Rightarrow> c # cs
      | e # _ \<Rightarrow> trimLeading encs (drop (length e - 1) cs))"

text \<open>
  \<^verbatim>\<open>strings.TrimFunc(s, unicode.IsSpace)\<close>: white space runes are removed from both ends.
  A rune ends the string exactly when its encoding, reversed, starts the reversed string.
\<close>

definition TrimFunc_IsSpace :: "string \<Rightarrow> string" where
  "TrimFunc_IsSpace s =
     rev (trimLeading (map rev IsSpace_encodings) (rev (trimLeading IsSpace_encodings s)))"

text \<open>
  The inner loop of \<^verbatim>\<open>parseV2\<close> over the lines after the name, with its variables
  \<^verbatim>\<open>stampStr\<close> and \<^verbatim>\<open>description\<close>; \<open>None\<close> is the jump \<^verbatim>\<open>continue PartsLoop\<close> at a
  second stamp.
\<close>

fun subpartsLoop :: "string list \<Rightarrow> string \<Rightarrow> string \<Rightarrow> (string \<times> string) option" where
  "subpartsLoop [] stampStr description = Some (stampStr, description)"
| "subpartsLoop (subpart0 # rest) stampStr description =
     (let subpart = TrimFunc_IsSpace subpart0
      in if HasPrefix subpart ''sdns:''
         then (if length stampStr > 0 then None
               else subpartsLoop rest subpart description)
         else if length subpart = 0 \<or> HasPrefix subpart ''//''
         then subpartsLoop rest stampStr description
         else subpartsLoop rest stampStr
                ((if length description > 0 then description @ [CHR 0x0A] else description)
                 @ subpart))"

text \<open>
  The body of \<^verbatim>\<open>PartsLoop\<close> for one section: it returns from \<^verbatim>\<open>parseV2\<close> with the
  format error, or appends a stamp error, or appends a server.
\<close>

datatype partResult =
    FormatError
  | StampError string
  | Registered RegisteredServer

definition parsePart :: "externals \<Rightarrow> string \<Rightarrow> string \<Rightarrow> partResult" where
  "parsePart ext prefix part0 =
     (let part = TrimFunc_IsSpace part0;
          subparts = Split part [CHR 0x0A]
      in if length subparts < 2 then FormatError
         else
           (let name0 = TrimFunc_IsSpace (hd subparts)
            in if length name0 = 0 then FormatError
               else
                 (let nm = prefix @ name0
                  in case subpartsLoop (tl subparts) [] [] of
                       None \<Rightarrow> StampError (''Multiple stamps for server ['' @ nm @ '']'')
                     | Some (stampStr, description) \<Rightarrow>
                         (if length stampStr < 6
                          then StampError (''Missing stamp for server ['' @ nm @ '']'')
                          else
                            (case NewServerStampFromString ext stampStr of
                               Inl msg \<Rightarrow>
                                 StampError
                                   (''Invalid or unsupported stamp ['' @ stampStr @ '']: '' @ msg)
                             | Inr stamp \<Rightarrow>
                                 Registered \<lparr>server_name = nm, server_stamp = stamp,
                                             server_description = description\<rparr>)))))"

fun PartsLoop ::
  "externals \<Rightarrow> URL list \<Rightarrow> string \<Rightarrow> string list \<Rightarrow> RegisteredServer list \<Rightarrow> string list
     \<Rightarrow> RegisteredServer list \<times> error option" where
  "PartsLoop ext us prefix [] registeredServers stampErrs =
     (if length stampErrs > 0
      then (registeredServers, Some (StampErrors (Join stampErrs '', '')))
      else (registeredServers, None))"
| "PartsLoop ext us prefix (part # rest) registeredServers stampErrs =
     (case parsePart ext prefix part of
        FormatError \<Rightarrow> (registeredServers, Some (InvalidFormat us))
      | StampError stampErr \<Rightarrow>
          PartsLoop ext us prefix rest registeredServers (stampErrs @ [stampErr])
      | Registered registeredServer \<Rightarrow>
          PartsLoop ext us prefix rest (registeredServers @ [registeredServer]) stampErrs)"

definition parseV2 :: "externals \<Rightarrow> Source \<Rightarrow> string \<Rightarrow> RegisteredServer list \<times> error option" where
  "parseV2 ext source prefix =
     (let parts = Split (in_data source) ''## ''
      in if length parts < 2 then ([], Some (InvalidFormat (urls source)))
         else PartsLoop ext (urls source) prefix (tl parts) [] [])"

subsection \<open>Descriptions used in the statements\<close>

text \<open>
  What one download gives, apart from the request it logs: the bytes and the error of
  \<^verbatim>\<open>fetchFromURL\<close>.
\<close>

definition download :: "externals \<Rightarrow> XTransport \<Rightarrow> URL \<Rightarrow> bytes \<times> error option" where
  "download ext xTransport u =
     (case Get xTransport u of
        Inl err \<Rightarrow> ([], Some err)
      | Inr (body, readErr) \<Rightarrow>
          (if MaxHTTPBodyLength ext \<le> length body
           then (take (MaxHTTPBodyLength ext) body, None)
           else (body, readErr)))"

text \<open>
  What one mirror gives: the error of the failed download or of the failed signature check, or
  the verified pair of list and signature.
\<close>

definition mirrorOutcome ::
  "externals \<Rightarrow> XTransport \<Rightarrow> Source \<Rightarrow> URL \<Rightarrow> error + (bytes \<times> bytes)" where
  "mirrorOutcome ext xTransport source u =
     (case download ext xTransport u of
        (bin, Some err) \<Rightarrow> Inl err
      | (bin, None) \<Rightarrow>
          (case download ext xTransport (u\<lparr>Path := Path u @ ''.minisig''\<rparr>) of
             (sig, Some err) \<Rightarrow> Inl err
           | (sig, None) \<Rightarrow>
               (case checkSignature ext source bin sig of
                  Some err \<Rightarrow> Inl err
                | None \<Rightarrow> Inr (bin, sig))))"

text \<open>The requests one mirror costs: the list, and the signature once the list has arrived.\<close>

definition mirrorRequests :: "externals \<Rightarrow> XTransport \<Rightarrow> URL \<Rightarrow> URL list" where
  "mirrorRequests ext xTransport u =
     (case download ext xTransport u of
        (bin, Some err) \<Rightarrow> [u]
      | (bin, None) \<Rightarrow> [u, u\<lparr>Path := Path u @ ''.minisig''\<rparr>])"

text \<open>
  What a sweep does with each source, in order: \<open>None\<close> when the source is skipped, else the
  delay and the error that \<^verbatim>\<open>fetchWithCache\<close> returned for it.
\<close>

fun sweepTrace ::
  "externals \<Rightarrow> XTransport \<Rightarrow> Time \<Rightarrow> Source list \<Rightarrow> world
     \<Rightarrow> (Duration \<times> error option) option list" where
  "sweepTrace ext xTransport now [] w = []"
| "sweepTrace ext xTransport now (source # rest) w =
     (if Time_IsZero (refresh source) \<or> Time_After (refresh source) now
      then None # sweepTrace ext xTransport now rest w
      else (case fetchWithCache ext xTransport now (w, source) of
              (w1, source1, delay, err) \<Rightarrow>
                Some (delay, err) # sweepTrace ext xTransport now rest w1))"

text \<open>The delays of the refreshes of a sweep that returned no error, in order.\<close>

fun successDelays :: "(Duration \<times> error option) option list \<Rightarrow> Duration list" where
  "successDelays [] = []"
| "successDelays (Some (delay, None) # rest) = delay # successDelays rest"
| "successDelays (r # rest) = successDelays rest"

text \<open>The assignment to \<^verbatim>\<open>interval\<close> in the loop of \<^verbatim>\<open>PrefetchSources\<close>.\<close>

definition intervalStep :: "Duration \<Rightarrow> Duration \<Rightarrow> Duration" where
  "intervalStep interval delay =
     (if delay \<ge> MinimumPrefetchInterval \<and>
         (interval = MinimumPrefetchInterval \<or> interval > delay)
      then delay else interval)"

text \<open>The test that makes the sweep pass over a source.\<close>

definition skipped :: "Time \<Rightarrow> Source \<Rightarrow> bool" where
  "skipped now source = (Time_IsZero (refresh source) \<or> Time_After (refresh source) now)"

text \<open>A line of a section that holds a stamp, as the inner loop of \<^verbatim>\<open>parseV2\<close> tests it.\<close>

definition stampLine :: "string \<Rightarrow> bool" where
  "stampLine l = HasPrefix (TrimFunc_IsSpace l) ''sdns:''"

text \<open>
  A section that passes the two format checks of \<^verbatim>\<open>PartsLoop\<close>: trimmed, it has at
  least two lines, and its first line, trimmed, is not empty.
\<close>

definition wellFormedPart :: "string \<Rightarrow> bool" where
  "wellFormedPart part =
     (2 \<le> length (Split (TrimFunc_IsSpace part) [CHR 0x0A]) \<and>
      TrimFunc_IsSpace (hd (Split (TrimFunc_IsSpace part) [CHR 0x0A])) \<noteq> [])"

text \<open>The servers and the stamp errors among the results of the sections, in order.\<close>

fun entriesOf :: "partResult list \<Rightarrow> RegisteredServer list" where
  "entriesOf [] = []"
| "entriesOf (Registered r # rest) = r # entriesOf rest"
| "entriesOf (x # rest) = entriesOf rest"

fun stampErrsOf :: "partResult list \<Rightarrow> string list" where
  "stampErrsOf [] = []"
| "stampErrsOf (StampError e # rest) = e # stampErrsOf rest"
| "stampErrsOf (x # rest) = stampErrsOf rest"

subsection \<open>A concrete instance\<close>

text \<open>
  A toy signature scheme, a small network and a small file system, on which the theorems
  below are evaluated. The signature of \<open>bin\<close> under the key \<open>''K''\<close> is
  \<open>''signed:'' @ bin\<close>.
\<close>

definition demoExt :: externals where
  "demoExt =
     \<lparr>DecodeSignature = (\<lambda>s. if s = [] then Inl (External ''empty signature'') else Inr s),
      Verify = (\<lambda>k bin sg. if k = Some ''K'' \<and> sg = ''signed:'' @ bin then None
                            else Some (External ''signature mismatch'')),
      NewPublicKey = (\<lambda>s. if s = ''K'' then Inr ''K'' else Inl (External ''invalid key'')),
      url_Parse = (\<lambda>s. if s = [] then Inl (External ''empty url'')
                         else Inr \<lparr>Scheme = ''https'', Host = ''example.org'', Path = s,
                                   RawQuery = []\<rparr>),
      NewServerStampFromString = (\<lambda>s. if s = ''sdns://ok'' then Inr ''stamp-ok''
                                        else Inl ''invalid stamp''),
      MaxHTTPBodyLength = 4000000\<rparr>"

definition demoURL :: "string \<Rightarrow> URL" where
  "demoURL p = \<lparr>Scheme = ''https'', Host = ''example.org'', Path = p, RawQuery = []\<rparr>"

text \<open>
  Three mirrors: \<open>/m1\<close> is down, \<open>/m2\<close> serves a list with a signature that does not
  match, \<open>/m3\<close> serves a list with its signature.
\<close>

definition demoNet :: XTransport where
  "demoNet =
     \<lparr>Get = (\<lambda>u. if Path u = ''/m2'' then Inr (''list two'', None)
                  else if Path u = ''/m2.minisig'' then Inr (''signed:other'', None)
                  else if Path u = ''/m3'' then Inr (''list three'', None)
                  else if Path u = ''/m3.minisig'' then Inr (''signed:list three'', None)
                  else Inl (External ''connection refused''))\<rparr>"

text \<open>
  A file system that holds the verified pair \<open>cache\<close>, \<open>cache.minisig\<close>, last written
  at \<open>modTime\<close>, and where the paths in \<open>ro\<close> cannot be written.
\<close>

definition demoWorld :: "Time \<Rightarrow> string list \<Rightarrow> world" where
  "demoWorld modTime ro =
     \<lparr>files = [''cache'' \<mapsto> ''old list'', ''cache.minisig'' \<mapsto> ''signed:old list''],
      modTimes = [''cache'' \<mapsto> modTime, ''cache.minisig'' \<mapsto> modTime],
      writeFails = (\<lambda>f. f \<in> set ro),
      fsClock = 1000 * Hour,
      requests = [],
      writeAttempts = []\<rparr>"

definition demoSource :: "string \<Rightarrow> string list \<Rightarrow> Duration \<Rightarrow> Time \<Rightarrow> Source" where
  "demoSource file mirrors ttl due =
     \<lparr>name = ''demo'', urls = map demoURL mirrors, format = SourceFormatV2, in_data = [],
      minisignKey = Some ''K'', cacheFile = file, cacheTTL = ttl,
      prefetchDelay = DefaultPrefetchDelay, refresh = due\<rparr>"

text \<open>A source that holds the given text.\<close>

definition demoList :: "string \<Rightarrow> Source" where
  "demoList text = (demoSource ''cache'' [] (24 * Hour) 0)\<lparr>in_data := text\<rparr>"

section \<open>Properties\<close>

text \<open>The definitions to unfold when a run is evaluated on the concrete instance.\<close>

lemmas demo_defs = demoExt_def demoNet_def demoWorld_def demoSource_def demoURL_def
lemmas run_defs = fetchWithCache_def fetchFromCache_def checkSignature_def fetchFromURL_def
  writeToCache_def WriteFile_def Let_def Time_Add_def Time_Sub_def minDuration_def maxDuration_def
  int64_def DefaultPrefetchDelay_def MinimumPrefetchInterval_def Hour_def Minute_def SourceFormatV2_def
  download_def NewSource_def

subsection \<open>What the functions leave unchanged\<close>

lemma fetchFromCache_result:
  "(\<exists>e. fetchFromCache ext w now s = (s, 0, Some e)) \<or>
   (\<exists>bin sig d eo.
      files w (cacheFile s) = Some bin \<and>
      files w (cacheFile s @ ''.minisig'') = Some sig \<and>
      checkSignature ext s bin sig = None \<and>
      fetchFromCache ext w now s = (s\<lparr>in_data := bin\<rparr>, d, eo) \<and>
      (eo \<noteq> None \<longrightarrow> d = 0))"
  by (simp add: fetchFromCache_def Let_def split: option.splits)

lemma checkSignature_key:
  "minisignKey s' = minisignKey s \<Longrightarrow>
     checkSignature ext s' bin sig = checkSignature ext s bin sig"
  by (simp add: checkSignature_def split: sum.splits)

lemma fetchFromCache_fields:
  assumes "fetchFromCache ext w now s = (s', d, e)"
  shows "urls s' = urls s" "minisignKey s' = minisignKey s" "cacheFile s' = cacheFile s"
    "cacheTTL s' = cacheTTL s" "prefetchDelay s' = prefetchDelay s" "refresh s' = refresh s"
    "name s' = name s" "format s' = format s"
  using assms fetchFromCache_result[of ext w now s] by auto

lemma fetchWithCache_fields:
  assumes "fetchWithCache ext xt now (w, s) = (w', s', d, e)"
  shows "urls s' = urls s" "minisignKey s' = minisignKey s" "cacheFile s' = cacheFile s"
    "cacheTTL s' = cacheTTL s" "prefetchDelay s' = prefetchDelay s"
    "name s' = name s" "format s' = format s"
proof -
  obtain s1 d1 e1 where c: "fetchFromCache ext w now s = (s1, d1, e1)"
    by (cases "fetchFromCache ext w now s") auto
  note f = fetchFromCache_fields[OF c]
  obtain w2 b2 g2 e2 where l: "fetchLoop ext xt s1 (urls s1) (w, [], [], e1) = (w2, b2, g2, e2)"
    by (cases "fetchLoop ext xt s1 (urls s1) (w, [], [], e1)") auto
  from assms c l f
  show "urls s' = urls s" "minisignKey s' = minisignKey s" "cacheFile s' = cacheFile s"
    "cacheTTL s' = cacheTTL s" "prefetchDelay s' = prefetchDelay s"
    "name s' = name s" "format s' = format s"
    by (auto simp: fetchWithCache_def Let_def split: if_splits option.splits)
qed

lemma parseURLs_fields:
  "cacheTTL (parseURLs ext s us) = cacheTTL s"
  "prefetchDelay (parseURLs ext s us) = prefetchDelay s"
  by (induction us arbitrary: s) (auto split: sum.splits)

subsection \<open>Construction\<close>

text \<open>
  C8. Whatever \<^verbatim>\<open>refreshDelay\<close> the caller passes to \<^verbatim>\<open>NewSource\<close>, and on every
  return path, the \<^verbatim>\<open>cacheTTL\<close> of the source is the larger of \<^verbatim>\<open>refreshDelay\<close> and
  24 hours: a value below 24 hours is raised to 24 hours.
\<close>

theorem NewSource_cacheTTL:
  "cacheTTL (fst (snd (NewSource ext xt now w nm us k cf fmt refreshDelay)))
     = max refreshDelay DefaultPrefetchDelay
   \<and> DefaultPrefetchDelay = 24 * 60 * 60 * 1000000000"
proof -
  have "DefaultPrefetchDelay = 24 * 60 * 60 * 1000000000"
    by (simp add: DefaultPrefetchDelay_def Hour_def Minute_def)
  moreover have "cacheTTL (fst (snd (NewSource ext xt now w nm us k cf fmt refreshDelay)))
     = max refreshDelay DefaultPrefetchDelay"
    by (auto simp: NewSource_def Let_def parseURLs_fields max_def
        split: sum.splits prod.splits dest: fetchWithCache_fields(4))
  ultimately show ?thesis by simp
qed

subsection \<open>Requests and error returns\<close>

lemma fetchFromURL_download:
  "fetchFromURL ext xt w u = (w\<lparr>requests := requests w @ [u]\<rparr>, download ext xt u)"
  by (simp add: fetchFromURL_def download_def Let_def split: sum.splits prod.splits)

lemma WriteFile_requests: "requests (fst (WriteFile w f b)) = requests w"
  by (simp add: WriteFile_def Let_def)

lemma writeToCache_requests: "requests (fst (writeToCache w s b g)) = requests w"
  by (simp add: writeToCache_def WriteFile_def Let_def split: prod.splits option.splits)

lemma fetchWithCache_error:
  assumes "urls s \<noteq> []" "fetchWithCache ext xt now (w, s) = (w', s', d, Some e)"
  shows "d = MinimumPrefetchInterval \<and> refresh s' = Time_Add now MinimumPrefetchInterval"
proof -
  obtain s1 d1 e1 where c: "fetchFromCache ext w now s = (s1, d1, e1)"
    by (cases "fetchFromCache ext w now s") auto
  have u: "urls s1 = urls s" using fetchFromCache_fields(1)[OF c] .
  have z: "e1 \<noteq> None \<longrightarrow> d1 = 0"
    using c fetchFromCache_result[of ext w now s] by auto
  obtain w2 b2 g2 e2 where l: "fetchLoop ext xt s1 (urls s) (w, [], [], e1) = (w2, b2, g2, e2)"
    by (cases "fetchLoop ext xt s1 (urls s) (w, [], [], e1)") auto
  from assms c u z l show ?thesis
    by (auto simp: fetchWithCache_def Let_def split: if_splits option.splits)
qed

subsection \<open>The loop over the mirrors\<close>

text \<open>One step of the loop, by the outcome of the mirror.\<close>

lemma fetchLoop_step_fail:
  assumes "mirrorOutcome ext xt s u = Inl err"
  shows "\<exists>b g. fetchLoop ext xt s (u # us) (w, b0, g0, e0) =
           fetchLoop ext xt s us
             (w\<lparr>requests := requests w @ mirrorRequests ext xt u\<rparr>, b, g, Some err)"
  using assms
  by (auto simp: mirrorOutcome_def mirrorRequests_def fetchFromURL_download
      split: prod.splits option.splits)

lemma fetchLoop_step_ok:
  assumes "mirrorOutcome ext xt s u = Inr (B, S)"
  shows "fetchLoop ext xt s (u # us) (w, b0, g0, e0) =
           (w\<lparr>requests := requests w @ mirrorRequests ext xt u\<rparr>, B, S, None)"
  using assms
  by (auto simp: mirrorOutcome_def mirrorRequests_def fetchFromURL_download
      split: prod.splits option.splits)

lemma fetchLoop_all_fail:
  assumes "\<forall>u\<in>set us. isl (mirrorOutcome ext xt s u)" "us \<noteq> []"
  shows "\<exists>b g. fetchLoop ext xt s us (w, b0, g0, e0) =
           (w\<lparr>requests := requests w @ concat (map (mirrorRequests ext xt) us)\<rparr>, b, g,
            Some (projl (mirrorOutcome ext xt s (last us))))"
  using assms
proof (induction us arbitrary: w b0 g0 e0)
  case Nil
  then show ?case by simp
next
  case (Cons u us)
  from Cons.prems obtain err where o: "mirrorOutcome ext xt s u = Inl err"
    by (cases "mirrorOutcome ext xt s u") auto
  from fetchLoop_step_fail[OF o] obtain b g where
    st: "fetchLoop ext xt s (u # us) (w, b0, g0, e0) =
           fetchLoop ext xt s us
             (w\<lparr>requests := requests w @ mirrorRequests ext xt u\<rparr>, b, g, Some err)"
    by blast
  show ?case
  proof (cases "us = []")
    case True
    with st o show ?thesis by simp
  next
    case False
    with Cons.IH[of "w\<lparr>requests := requests w @ mirrorRequests ext xt u\<rparr>" b g "Some err"]
      Cons.prems st
    show ?thesis by auto
  qed
qed

lemma fetchLoop_first_ok:
  assumes "\<forall>u\<in>set pre. isl (mirrorOutcome ext xt s u)"
    and "mirrorOutcome ext xt s m = Inr (B, S)"
  shows "fetchLoop ext xt s (pre @ m # post) (w, b0, g0, e0) =
           (w\<lparr>requests := requests w @ concat (map (mirrorRequests ext xt) (pre @ [m]))\<rparr>,
            B, S, None)"
  using assms(1)
proof (induction pre arbitrary: w b0 g0 e0)
  case Nil
  show ?case using fetchLoop_step_ok[OF assms(2)] by simp
next
  case (Cons u pre)
  from Cons.prems obtain err where o: "mirrorOutcome ext xt s u = Inl err"
    by (cases "mirrorOutcome ext xt s u") auto
  from fetchLoop_step_fail[OF o] obtain b g where
    st: "fetchLoop ext xt s (u # pre @ m # post) (w, b0, g0, e0) =
           fetchLoop ext xt s (pre @ m # post)
             (w\<lparr>requests := requests w @ mirrorRequests ext xt u\<rparr>, b, g, Some err)"
    by blast
  from Cons.IH[of "w\<lparr>requests := requests w @ mirrorRequests ext xt u\<rparr>" b g "Some err"]
    Cons.prems st
  show ?case by simp
qed


lemma mirrorOutcome_Inr:
  assumes "mirrorOutcome ext xt s u = Inr (B, S)"
  shows "checkSignature ext s B S = None" "download ext xt u = (B, None)"
    "download ext xt (u\<lparr>Path := Path u @ ''.minisig''\<rparr>) = (S, None)"
  using assms by (auto simp: mirrorOutcome_def split: prod.splits option.splits)

lemma mirrorRequests_nonempty: "mirrorRequests ext xt u \<noteq> []"
  by (simp add: mirrorRequests_def split: prod.splits option.splits)

lemma fetchLoop_result:
  assumes "us \<noteq> []" "fetchLoop ext xt s us (w, b0, g0, e0) = (w', B, S, e)"
  shows "\<exists>rs. rs \<noteq> [] \<and> w' = w\<lparr>requests := requests w @ rs\<rparr> \<and>
           (e = None \<longrightarrow> (\<exists>m\<in>set us. mirrorOutcome ext xt s m = Inr (B, S)))"
proof (cases "\<forall>u\<in>set us. isl (mirrorOutcome ext xt s u)")
  case True
  from fetchLoop_all_fail[OF True assms(1), of w b0 g0 e0] assms(2) assms(1)
  have "w' = w\<lparr>requests := requests w @ concat (map (mirrorRequests ext xt) us)\<rparr>" "e \<noteq> None"
    by auto
  moreover have "concat (map (mirrorRequests ext xt) us) \<noteq> []"
    using assms(1) mirrorRequests_nonempty by (cases us) auto
  ultimately show ?thesis by blast
next
  case False
  then have "\<exists>u\<in>set us. \<not> isl (mirrorOutcome ext xt s u)" by blast
  from split_list_first_prop[OF this] obtain pre m post where
    us: "us = pre @ m # post" and m: "\<not> isl (mirrorOutcome ext xt s m)"
    and pre: "\<forall>u\<in>set pre. isl (mirrorOutcome ext xt s u)"
    by auto
  from m obtain B' S' where o: "mirrorOutcome ext xt s m = Inr (B', S')"
    by (cases "mirrorOutcome ext xt s m") auto
  from fetchLoop_first_ok[OF pre o, of post w b0 g0 e0] assms(2) us
  have r: "w' = w\<lparr>requests := requests w @ concat (map (mirrorRequests ext xt) (pre @ [m]))\<rparr>"
    "B = B'" "S = S'"
    by auto
  have ne: "concat (map (mirrorRequests ext xt) (pre @ [m])) \<noteq> []"
    using mirrorRequests_nonempty by simp
  have "m \<in> set us" using us by simp
  with r o have "\<exists>m\<in>set us. mirrorOutcome ext xt s m = Inr (B, S)" by blast
  with ne r(1) show ?thesis by blast
qed

text \<open>
  C5. The loop tries the mirrors in the order of \<^verbatim>\<open>source.urls\<close>. A mirror whose list
  or signature cannot be downloaded, or whose signature check fails, is passed over. The loop
  stops at the first mirror whose pair verifies and returns that pair, having requested the
  mirrors before it and no mirror after it. When no mirror gives a verified pair, the loop
  ends with the error of the last mirror.
\<close>

theorem mirror_fallback:
  "(\<forall>pre m post B S.
      us = pre @ m # post \<and> (\<forall>u\<in>set pre. isl (mirrorOutcome ext xt s u)) \<and>
      mirrorOutcome ext xt s m = Inr (B, S) \<longrightarrow>
      fetchLoop ext xt s us (w, b0, g0, e0) =
        (w\<lparr>requests := requests w @ concat (map (mirrorRequests ext xt) (pre @ [m]))\<rparr>,
         B, S, None)) \<and>
   (us \<noteq> [] \<and> (\<forall>u\<in>set us. isl (mirrorOutcome ext xt s u)) \<longrightarrow>
      (\<exists>b g. fetchLoop ext xt s us (w, b0, g0, e0) =
         (w\<lparr>requests := requests w @ concat (map (mirrorRequests ext xt) us)\<rparr>, b, g,
          Some (projl (mirrorOutcome ext xt s (last us))))))"
  using fetchLoop_first_ok[of _ ext xt s _ _ _ _ w b0 g0 e0]
    fetchLoop_all_fail[of us ext xt s w b0 g0 e0]
  by blast

subsection \<open>The paths through the refresh\<close>

text \<open>The three ways through \<^verbatim>\<open>fetchWithCache\<close> when there is a URL.\<close>

lemma fetchWithCache_paths:
  assumes u: "urls s \<noteq> []"
    and c: "fetchFromCache ext w now s = (s1, d1, e1)"
    and r: "fetchWithCache ext xt now (w, s) = (w', s', d, e)"
  shows "(0 < d1 \<and> e1 = None \<and> w' = w \<and> s' = s1\<lparr>refresh := Time_Add now d1\<rparr> \<and> d = d1 \<and> e = None)
       \<or> (d1 \<le> 0 \<and> e \<noteq> None \<and> in_data s' = in_data s1 \<and> d = MinimumPrefetchInterval \<and>
            refresh s' = Time_Add now MinimumPrefetchInterval \<and>
            (\<exists>rs. rs \<noteq> [] \<and> w' = w\<lparr>requests := requests w @ rs\<rparr>))
       \<or> (d1 \<le> 0 \<and> e = None \<and> d = prefetchDelay s \<and>
            refresh s' = Time_Add now (prefetchDelay s) \<and>
            (\<exists>m\<in>set (urls s). \<exists>S. mirrorOutcome ext xt s1 m = Inr (in_data s', S)) \<and>
            (\<exists>rs. rs \<noteq> [] \<and> requests w' = requests w @ rs))"
proof -
  have u1: "urls s1 = urls s" and p1: "prefetchDelay s1 = prefetchDelay s"
    using fetchFromCache_fields[OF c] by simp_all
  have z: "e1 \<noteq> None \<longrightarrow> d1 = 0"
    using c fetchFromCache_result[of ext w now s] by auto
  obtain w2 B S e2 where l: "fetchLoop ext xt s1 (urls s) (w, [], [], e1) = (w2, B, S, e2)"
    by (cases "fetchLoop ext xt s1 (urls s) (w, [], [], e1)") auto
  from fetchLoop_result[OF u l] obtain rs where
    rs: "rs \<noteq> []" "w2 = w\<lparr>requests := requests w @ rs\<rparr>"
    "e2 = None \<longrightarrow> (\<exists>m\<in>set (urls s). mirrorOutcome ext xt s1 m = Inr (B, S))"
    by blast
  show ?thesis
  proof (cases "0 < d1")
    case True
    with u c r u1 z show ?thesis
      by (cases e1) (auto simp: fetchWithCache_def)
  next
    case False
    show ?thesis
    proof (cases e2)
      case None
      with rs obtain m where m: "m \<in> set (urls s)" "mirrorOutcome ext xt s1 m = Inr (B, S)"
        by blast
      from None False u c r u1 p1 l rs(1,2)
      have "d1 \<le> 0 \<and> e = None \<and> d = prefetchDelay s \<and>
            refresh s' = Time_Add now (prefetchDelay s) \<and> in_data s' = B \<and>
            requests w' = requests w @ rs"
        by (auto simp: fetchWithCache_def Let_def writeToCache_requests)
      with m rs(1) show ?thesis by blast
    next
      case (Some err)
      with False u c r u1 l rs show ?thesis
        by (auto simp: fetchWithCache_def Let_def)
    qed
  qed
qed


lemma fetchWithCache_no_urls:
  assumes "urls s = []"
  shows "fetchWithCache ext xt now (w, s) =
           (case fetchFromCache ext w now s of (s1, d1, e1) \<Rightarrow> (w, s1, d1, e1))"
proof -
  obtain s1 d1 e1 where c: "fetchFromCache ext w now s = (s1, d1, e1)"
    by (cases "fetchFromCache ext w now s") auto
  with assms fetchFromCache_fields(1)[OF c] show ?thesis
    by (simp add: fetchWithCache_def)
qed

lemma fetchFromCache_fresh:
  assumes "files w (cacheFile s) = Some bin"
    and "files w (cacheFile s @ ''.minisig'') = Some sig"
    and "checkSignature ext s bin sig = None"
    and "modTimes w (cacheFile s) = Some modTime"
    and "Time_Sub now modTime < cacheTTL s"
  shows "fetchFromCache ext w now s =
           (s\<lparr>in_data := bin\<rparr>, int64 (prefetchDelay s - Time_Sub now modTime), None)"
  using assms by (simp add: fetchFromCache_def Let_def)

lemma fetchWithCache_fresh:
  assumes "files w (cacheFile s) = Some bin"
    and "files w (cacheFile s @ ''.minisig'') = Some sig"
    and "checkSignature ext s bin sig = None"
    and "modTimes w (cacheFile s) = Some modTime"
    and "Time_Sub now modTime < cacheTTL s"
    and "urls s \<noteq> []"
    and "0 < int64 (prefetchDelay s - Time_Sub now modTime)"
  shows "fetchWithCache ext xt now (w, s) =
           (w, s\<lparr>in_data := bin,
                 refresh := Time_Add now (int64 (prefetchDelay s - Time_Sub now modTime))\<rparr>,
            int64 (prefetchDelay s - Time_Sub now modTime), None)"
  using assms(6,7) fetchFromCache_fresh[OF assms(1-5)]
  by (simp add: fetchWithCache_def)

lemma int64_id: "- (2 ^ 63) \<le> x \<Longrightarrow> x < 2 ^ 63 \<Longrightarrow> int64 x = x"
  by (simp add: int64_def)

lemma Time_Sub_id:
  "minDuration \<le> x \<Longrightarrow> x \<le> maxDuration \<Longrightarrow> Time_Sub now (now - x) = x"
  by (simp add: Time_Sub_def Let_def)

subsection \<open>Writing the cache\<close>

text \<open>
  C2 (amended). \<^verbatim>\<open>writeToCache\<close> writes the list and then the signature, each by an
  atomic replacement of the file. When the first write fails, the second is not attempted and
  both files are as before. When both succeed, the cache holds the new pair. When the first
  succeeds and the second fails, the cache holds the new list beside the signature file as it
  was, old or missing.
\<close>

theorem writeToCache_outcomes:
  assumes "writeToCache w s bin sig = (w', e)"
  shows "(writeFails w (cacheFile s) \<longrightarrow>
            e = Some (WriteFileError (cacheFile s)) \<and>
            files w' = files w \<and> modTimes w' = modTimes w \<and>
            writeAttempts w' = writeAttempts w @ [cacheFile s]) \<and>
         (\<not> writeFails w (cacheFile s) \<and> writeFails w (cacheFile s @ ''.minisig'') \<longrightarrow>
            e = Some (WriteFileError (cacheFile s @ ''.minisig'')) \<and>
            files w' = (files w)(cacheFile s \<mapsto> bin) \<and>
            files w' (cacheFile s @ ''.minisig'') = files w (cacheFile s @ ''.minisig'') \<and>
            writeAttempts w' = writeAttempts w @ [cacheFile s, cacheFile s @ ''.minisig'']) \<and>
         (\<not> writeFails w (cacheFile s) \<and> \<not> writeFails w (cacheFile s @ ''.minisig'') \<longrightarrow>
            e = None \<and>
            files w' = (files w)(cacheFile s \<mapsto> bin, cacheFile s @ ''.minisig'' \<mapsto> sig) \<and>
            writeAttempts w' = writeAttempts w @ [cacheFile s, cacheFile s @ ''.minisig''])"
  using assms
  by (auto simp: writeToCache_def WriteFile_def Let_def split: if_splits)

subsection \<open>Trust\<close>

text \<open>
  C1. Whichever way \<^verbatim>\<open>fetchFromCache\<close> and \<^verbatim>\<open>fetchWithCache\<close> return, the field
  \<^verbatim>\<open>in\<close> of the source is what it was, or it holds bytes whose check against their own
  signature under the key of the source succeeded: the cached list with the cached signature,
  or the list of one of the mirrors with the signature downloaded from the same mirror.
\<close>

theorem content_only_verified:
  "(\<forall>s1 d1 e1. fetchFromCache ext w now s = (s1, d1, e1) \<longrightarrow>
      in_data s1 = in_data s \<or>
      (\<exists>sig. files w (cacheFile s) = Some (in_data s1) \<and>
             files w (cacheFile s @ ''.minisig'') = Some sig \<and>
             checkSignature ext s (in_data s1) sig = None)) \<and>
   (\<forall>w' s' d e. fetchWithCache ext xt now (w, s) = (w', s', d, e) \<longrightarrow>
      in_data s' = in_data s \<or>
      (\<exists>sig. checkSignature ext s (in_data s') sig = None \<and>
         (files w (cacheFile s) = Some (in_data s') \<and>
          files w (cacheFile s @ ''.minisig'') = Some sig \<or>
          (\<exists>u\<in>set (urls s).
             download ext xt u = (in_data s', None) \<and>
             download ext xt (u\<lparr>Path := Path u @ ''.minisig''\<rparr>) = (sig, None)))))"
proof (intro conjI allI impI)
  fix s1 d1 e1
  assume "fetchFromCache ext w now s = (s1, d1, e1)"
  with fetchFromCache_result[of ext w now s]
  show "in_data s1 = in_data s \<or>
      (\<exists>sig. files w (cacheFile s) = Some (in_data s1) \<and>
             files w (cacheFile s @ ''.minisig'') = Some sig \<and>
             checkSignature ext s (in_data s1) sig = None)"
    by auto
next
  fix w' s' d e
  assume r: "fetchWithCache ext xt now (w, s) = (w', s', d, e)"
  obtain s1 d1 e1 where c: "fetchFromCache ext w now s = (s1, d1, e1)"
    by (cases "fetchFromCache ext w now s") auto
  have cache: "in_data s1 = in_data s \<or>
      (\<exists>sig. files w (cacheFile s) = Some (in_data s1) \<and>
             files w (cacheFile s @ ''.minisig'') = Some sig \<and>
             checkSignature ext s (in_data s1) sig = None)"
    using c fetchFromCache_result[of ext w now s] by auto
  have k: "minisignKey s1 = minisignKey s" using fetchFromCache_fields(2)[OF c] .
  let ?goal = "in_data s' = in_data s \<or>
      (\<exists>sig. checkSignature ext s (in_data s') sig = None \<and>
         (files w (cacheFile s) = Some (in_data s') \<and>
          files w (cacheFile s @ ''.minisig'') = Some sig \<or>
          (\<exists>u\<in>set (urls s).
             download ext xt u = (in_data s', None) \<and>
             download ext xt (u\<lparr>Path := Path u @ ''.minisig''\<rparr>) = (sig, None))))"
  show ?goal
  proof (cases "urls s = []")
    case True
    with r c have "s' = s1" by (simp add: fetchWithCache_no_urls)
    with cache show ?thesis by auto
  next
    case False
    from fetchWithCache_paths[OF False c r]
    consider (same) "in_data s' = in_data s1"
      | (net) m S where "m \<in> set (urls s)" "mirrorOutcome ext xt s1 m = Inr (in_data s', S)"
      by auto
    then show ?thesis
    proof cases
      case same
      with cache show ?thesis by auto
    next
      case net
      from mirrorOutcome_Inr[OF net(2)] checkSignature_key[OF k]
      have "checkSignature ext s (in_data s') S = None"
        "download ext xt m = (in_data s', None)"
        "download ext xt (m\<lparr>Path := Path m @ ''.minisig''\<rparr>) = (S, None)"
        by simp_all
      with net(1) show ?thesis by blast
    qed
  qed
qed

subsection \<open>Scheduling\<close>

text \<open>
  C4. When a source with at least one URL is refreshed and \<^verbatim>\<open>fetchWithCache\<close> returns
  an error, the next refresh is scheduled 10 minutes, the minimum interval, after \<open>now\<close>:
  the distance is neither zero nor negative.
\<close>

theorem failed_refresh_keeps_floor:
  assumes "urls s \<noteq> []"
    and "fetchWithCache ext xt now (w, s) = (w', s', d, Some e)"
  shows "Time_Sub (refresh s') now = MinimumPrefetchInterval \<and>
         MinimumPrefetchInterval = 10 * 60 * 1000000000 \<and>
         0 < Time_Sub (refresh s') now \<and> d = MinimumPrefetchInterval"
proof -
  from fetchWithCache_error[OF assms]
  have "d = MinimumPrefetchInterval" "refresh s' = now + MinimumPrefetchInterval"
    by (simp_all add: Time_Add_def)
  moreover have m: "MinimumPrefetchInterval = 10 * 60 * 1000000000"
    by (simp add: MinimumPrefetchInterval_def Minute_def)
  ultimately show ?thesis
    by (simp add: Time_Sub_def Let_def minDuration_def maxDuration_def)
qed


lemma fetchWithCache_network_success:
  assumes "fetchWithCache ext xt now (w, s) = (w', s', d, None)"
    and "requests w' \<noteq> requests w"
  shows "d = prefetchDelay s \<and> refresh s' = Time_Add now (prefetchDelay s)"
proof (cases "urls s = []")
  case True
  with assms show ?thesis
    by (auto simp: fetchWithCache_no_urls split: prod.splits)
next
  case False
  obtain s1 d1 e1 where c: "fetchFromCache ext w now s = (s1, d1, e1)"
    by (cases "fetchFromCache ext w now s") auto
  from fetchWithCache_paths[OF False c assms(1)] assms(2) show ?thesis
    by auto
qed

text \<open>
  C9. A source made by \<^verbatim>\<open>NewSource\<close> has a \<^verbatim>\<open>prefetchDelay\<close> of 24 hours, whatever
  \<^verbatim>\<open>refreshDelay\<close> was passed. So a refresh of it that went to the network and returned
  no error, inside \<^verbatim>\<open>NewSource\<close> or later, returns a delay of 24 hours and schedules the
  next refresh 24 hours after its \<open>now\<close>.
\<close>

theorem NewSource_prefetchDelay:
  assumes "NewSource ext xt now w nm us k cf fmt refreshDelay = (w1, s1, e1)"
  shows "prefetchDelay s1 = 24 * Hour \<and>
         (e1 = None \<and> requests w1 \<noteq> requests w \<longrightarrow> refresh s1 = Time_Add now (24 * Hour)) \<and>
         (\<forall>ext' xt' now' w2 w3 s3 d.
            fetchWithCache ext' xt' now' (w2, s1) = (w3, s3, d, None) \<and>
            requests w3 \<noteq> requests w2 \<longrightarrow>
            d = 24 * Hour \<and> refresh s3 = Time_Add now' (24 * Hour) \<and>
            prefetchDelay s3 = 24 * Hour)"
proof -
  have p: "prefetchDelay s1 = 24 * Hour"
    using assms
    by (auto simp: NewSource_def Let_def parseURLs_fields DefaultPrefetchDelay_def
        split: sum.splits prod.splits if_splits dest: fetchWithCache_fields(5))
  have n: "refresh s1 = Time_Add now (24 * Hour)" if "e1 = None" "requests w1 \<noteq> requests w"
  proof -
    from assms that obtain s0 d0 where
      f: "fetchWithCache ext xt now (w, s0) = (w1, s1, d0, None)"
      and s0: "prefetchDelay s0 = DefaultPrefetchDelay"
      by (auto simp: NewSource_def Let_def parseURLs_fields
          split: sum.splits prod.splits if_splits)
    from fetchWithCache_network_success[OF f that(2)] s0 show ?thesis
      by (simp add: DefaultPrefetchDelay_def)
  qed
  have l: "d = 24 * Hour \<and> refresh s3 = Time_Add now' (24 * Hour) \<and> prefetchDelay s3 = 24 * Hour"
    if "fetchWithCache ext' xt' now' (w2, s1) = (w3, s3, d, None) \<and> requests w3 \<noteq> requests w2"
    for ext' xt' now' w2 w3 s3 d
    using fetchWithCache_network_success[of ext' xt' now' w2 s1 w3 s3 d]
      fetchWithCache_fields(5)[of ext' xt' now' w2 s1 w3 s3 d None] that p
    by simp
  from p n l show ?thesis by blast
qed

text \<open>
  C10. For a source with at least one URL whose cached pair verifies: when the age of the cache
  file is below \<^verbatim>\<open>cacheTTL\<close> and \<^verbatim>\<open>prefetchDelay - elapsed\<close>, as the code computes it,
  is positive, the refresh returns without touching the world and schedules the next refresh
  exactly that delay after \<open>now\<close>. The delay can be any positive value up to
  \<^verbatim>\<open>prefetchDelay\<close>, also one below the 10 minutes of the minimum interval: a cache file
  of the matching age gives it.
\<close>

theorem fresh_cache_schedule:
  assumes "urls s \<noteq> []"
    and "files w (cacheFile s) = Some bin"
    and "files w (cacheFile s @ ''.minisig'') = Some sig"
    and "checkSignature ext s bin sig = None"
  shows "(\<forall>modTime.
            modTimes w (cacheFile s) = Some modTime \<and>
            Time_Sub now modTime < cacheTTL s \<and>
            0 < int64 (prefetchDelay s - Time_Sub now modTime) \<longrightarrow>
            fetchWithCache ext xt now (w, s) =
              (w, s\<lparr>in_data := bin,
                    refresh := Time_Add now (int64 (prefetchDelay s - Time_Sub now modTime))\<rparr>,
               int64 (prefetchDelay s - Time_Sub now modTime), None)) \<and>
         (\<forall>d. 0 < d \<and> d \<le> prefetchDelay s \<and> prefetchDelay s \<le> maxDuration \<and>
              prefetchDelay s - d < cacheTTL s \<longrightarrow>
              fetchWithCache ext xt now
                (w\<lparr>modTimes := (modTimes w)(cacheFile s \<mapsto> now - (prefetchDelay s - d))\<rparr>, s) =
                (w\<lparr>modTimes := (modTimes w)(cacheFile s \<mapsto> now - (prefetchDelay s - d))\<rparr>,
                 s\<lparr>in_data := bin, refresh := Time_Add now d\<rparr>, d, None))"
proof (intro conjI allI impI)
  fix modTime
  assume "modTimes w (cacheFile s) = Some modTime \<and>
            Time_Sub now modTime < cacheTTL s \<and>
            0 < int64 (prefetchDelay s - Time_Sub now modTime)"
  then show "fetchWithCache ext xt now (w, s) =
              (w, s\<lparr>in_data := bin,
                    refresh := Time_Add now (int64 (prefetchDelay s - Time_Sub now modTime))\<rparr>,
               int64 (prefetchDelay s - Time_Sub now modTime), None)"
    using fetchWithCache_fresh[OF assms(2,3,4) _ _ assms(1)] by blast
next
  fix d
  assume d: "0 < d \<and> d \<le> prefetchDelay s \<and> prefetchDelay s \<le> maxDuration \<and>
              prefetchDelay s - d < cacheTTL s"
  let ?w = "w\<lparr>modTimes := (modTimes w)(cacheFile s \<mapsto> now - (prefetchDelay s - d))\<rparr>"
  have e: "Time_Sub now (now - (prefetchDelay s - d)) = prefetchDelay s - d"
    using d by (intro Time_Sub_id) (simp_all add: minDuration_def maxDuration_def)
  have i: "int64 (prefetchDelay s - (prefetchDelay s - d)) = d"
    using d by (simp add: int64_id maxDuration_def)
  have "fetchWithCache ext xt now (?w, s) =
          (?w, s\<lparr>in_data := bin,
                 refresh := Time_Add now (int64 (prefetchDelay s -
                    Time_Sub now (now - (prefetchDelay s - d))))\<rparr>,
           int64 (prefetchDelay s - Time_Sub now (now - (prefetchDelay s - d))), None)"
    using assms d e i
    by (intro fetchWithCache_fresh[where bin = bin and sig = sig]) simp_all
  with e i show "fetchWithCache ext xt now (?w, s) =
                (?w, s\<lparr>in_data := bin, refresh := Time_Add now d\<rparr>, d, None)"
    by simp
qed

text \<open>
  C3 (amended). For a source whose cached pair verifies, whose cache file is younger than
  \<^verbatim>\<open>cacheTTL\<close> at both calls, and that has no URL or for which
  \<^verbatim>\<open>prefetchDelay - elapsed\<close> is positive at both calls: two calls of
  \<^verbatim>\<open>fetchWithCache\<close> in succession leave the world as it was, so that neither requests
  anything from the network, and both leave the cached list in the field \<^verbatim>\<open>in\<close>.
\<close>

theorem fresh_cache_idempotent:
  assumes "files w (cacheFile s) = Some bin"
    and "files w (cacheFile s @ ''.minisig'') = Some sig"
    and "checkSignature ext s bin sig = None"
    and "modTimes w (cacheFile s) = Some modTime"
    and "Time_Sub now1 modTime < cacheTTL s"
    and "urls s = [] \<or> 0 < int64 (prefetchDelay s - Time_Sub now1 modTime)"
    and "Time_Sub now2 modTime < cacheTTL s"
    and "urls s = [] \<or> 0 < int64 (prefetchDelay s - Time_Sub now2 modTime)"
  shows "\<exists>s1 d1 s2 d2.
           fetchWithCache ext xt now1 (w, s) = (w, s1, d1, None) \<and>
           fetchWithCache ext xt now2 (w, s1) = (w, s2, d2, None) \<and>
           in_data s1 = bin \<and> in_data s2 = bin"
proof -
  have first: "\<exists>s1 d1. fetchWithCache ext xt now (w, t) = (w, s1, d1, None) \<and> in_data s1 = bin \<and>
      urls s1 = urls t \<and> cacheFile s1 = cacheFile t \<and> cacheTTL s1 = cacheTTL t \<and>
      prefetchDelay s1 = prefetchDelay t \<and> minisignKey s1 = minisignKey t"
    if "files w (cacheFile t) = Some bin"
      and "files w (cacheFile t @ ''.minisig'') = Some sig"
      and "checkSignature ext t bin sig = None"
      and "modTimes w (cacheFile t) = Some modTime"
      and "Time_Sub now modTime < cacheTTL t"
      and "urls t = [] \<or> 0 < int64 (prefetchDelay t - Time_Sub now modTime)"
    for now t
  proof (cases "urls t = []")
    case True
    then show ?thesis
      by (simp add: fetchWithCache_no_urls fetchFromCache_fresh[OF that(1-5)])
  next
    case False
    with that(6) have "0 < int64 (prefetchDelay t - Time_Sub now modTime)" by simp
    from fetchWithCache_fresh[OF that(1-5) False this] show ?thesis by simp
  qed
  from first[OF assms(1-6)] obtain s1 d1 where
    1: "fetchWithCache ext xt now1 (w, s) = (w, s1, d1, None)" "in_data s1 = bin"
    "urls s1 = urls s" "cacheFile s1 = cacheFile s" "cacheTTL s1 = cacheTTL s"
    "prefetchDelay s1 = prefetchDelay s" "minisignKey s1 = minisignKey s"
    by blast
  have "checkSignature ext s1 bin sig = None"
    using checkSignature_key[OF 1(7)] assms(3) by simp
  from first[of s1 now2, OF _ _ this] 1 assms
  obtain s2 d2 where "fetchWithCache ext xt now2 (w, s1) = (w, s2, d2, None)" "in_data s2 = bin"
    by auto
  with 1 show ?thesis by blast
qed

subsection \<open>The sweep\<close>

lemma prefetchLoop_interval:
  "prefetchLoop ext xt now ss (w, i) = (w', ss', i') \<Longrightarrow>
     i' = foldl intervalStep i (successDelays (sweepTrace ext xt now ss w))"
proof (induction ss arbitrary: w i w' ss' i')
  case Nil
  then show ?case by simp
next
  case (Cons s ss)
  show ?case
  proof (cases "Time_IsZero (refresh s) \<or> Time_After (refresh s) now")
    case True
    with Cons.prems obtain w2 ss2 where "prefetchLoop ext xt now ss (w, i) = (w2, ss2, i')"
      by (auto split: prod.splits)
    from Cons.IH[OF this] True show ?thesis by simp
  next
    case False
    obtain w1 s1 d e where f: "fetchWithCache ext xt now (w, s) = (w1, s1, d, e)"
      by (cases "fetchWithCache ext xt now (w, s)") auto
    show ?thesis
    proof (cases e)
      case None
      with False f Cons.prems obtain w2 ss2 where
        "prefetchLoop ext xt now ss (w1, intervalStep i d) = (w2, ss2, i')"
        by (auto simp: intervalStep_def Let_def split: prod.splits)
      from Cons.IH[OF this] False f None show ?thesis by simp
    next
      case (Some err)
      with False f Cons.prems obtain w2 ss2 where
        "prefetchLoop ext xt now ss (w1, i) = (w2, ss2, i')"
        by (auto split: prod.splits)
      from Cons.IH[OF this] False f Some show ?thesis by simp
    qed
  qed
qed

lemma prefetchLoop_sources:
  "prefetchLoop ext xt now ss (w, i) = (w', ss', i') \<Longrightarrow>
     length ss' = length ss \<and>
     (\<forall>k<length ss. skipped now (ss ! k) \<longrightarrow>
         ss' ! k = ss ! k \<and> sweepTrace ext xt now ss w ! k = None) \<and>
     (\<forall>k<length ss. \<not> skipped now (ss ! k) \<longrightarrow> sweepTrace ext xt now ss w ! k \<noteq> None)"
proof (induction ss arbitrary: w i w' ss' i')
  case Nil
  then show ?case by simp
next
  case (Cons s ss)
  show ?case
  proof (cases "Time_IsZero (refresh s) \<or> Time_After (refresh s) now")
    case True
    with Cons.prems obtain w2 ss2 where p: "prefetchLoop ext xt now ss (w, i) = (w2, ss2, i')"
      and r: "ss' = s # ss2"
      by (auto split: prod.splits)
    from Cons.IH[OF p] True r show ?thesis
      by (auto simp: skipped_def nth_Cons split: nat.splits)
  next
    case False
    obtain w1 s1 d e where f: "fetchWithCache ext xt now (w, s) = (w1, s1, d, e)"
      by (cases "fetchWithCache ext xt now (w, s)") auto
    from False f Cons.prems obtain i1 w2 ss2 where
      p: "prefetchLoop ext xt now ss (w1, i1) = (w2, ss2, i')" and r: "ss' = s1 # ss2"
      by (cases e) (auto simp: Let_def split: prod.splits)
    from Cons.IH[OF p] False f r show ?thesis
      by (auto simp: skipped_def nth_Cons split: nat.splits)
  qed
qed

lemma intervalStep_floor:
  "MinimumPrefetchInterval \<le> i \<Longrightarrow> MinimumPrefetchInterval \<le> foldl intervalStep i ds"
  by (induction ds arbitrary: i) (auto simp: intervalStep_def)

lemma intervalStep_filter:
  "foldl intervalStep i ds = foldl intervalStep i (filter (\<lambda>d. MinimumPrefetchInterval \<le> d) ds)"
  by (induction ds arbitrary: i) (auto simp: intervalStep_def)

lemma intervalStep_min:
  assumes "\<forall>d\<in>set ds. MinimumPrefetchInterval < d" "MinimumPrefetchInterval \<le> i"
  shows "foldl intervalStep i ds =
           (if i = MinimumPrefetchInterval
            then (if ds = [] then MinimumPrefetchInterval else Min (set ds))
            else Min (insert i (set ds)))"
  using assms
proof (induction ds arbitrary: i)
  case Nil
  then show ?case by simp
next
  case (Cons d ds)
  have d: "MinimumPrefetchInterval < d" using Cons.prems by simp
  have step: "intervalStep i d = (if i = MinimumPrefetchInterval then d else min i d)"
    using d Cons.prems(2) by (auto simp: intervalStep_def)
  have ge: "MinimumPrefetchInterval \<le> intervalStep i d" and ne: "intervalStep i d \<noteq> MinimumPrefetchInterval"
    using step d Cons.prems(2) by (auto simp: min_def)
  have "foldl intervalStep i (d # ds) = Min (insert (intervalStep i d) (set ds))"
    using Cons.IH[of "intervalStep i d"] Cons.prems ge ne by simp
  also have "\<dots> = (if i = MinimumPrefetchInterval then Min (set (d # ds))
                    else Min (insert i (set (d # ds))))"
  proof (cases "ds = []")
    case True
    then show ?thesis using step by (simp add: min.commute)
  next
    case False
    then show ?thesis using step
      by (auto simp: Min_insert min.assoc min.commute min.left_commute insert_commute)
  qed
  finally show ?case by simp
qed

text \<open>
  C7 (amended). A sweep passes over every source whose \<^verbatim>\<open>refresh\<close> is the zero time
  or is after \<open>now\<close>, leaving it as it is, and calls \<^verbatim>\<open>fetchWithCache\<close> for every
  other source. The interval it returns is at least the minimum interval. It is the minimum
  interval when no refresh that returned without error gave a delay of at least the minimum
  interval. When there are such delays and none of the delays returned without error is
  exactly the minimum interval, it is the smallest of them.
\<close>

theorem PrefetchSources_interval:
  assumes "PrefetchSources ext xt now w sources = (w', sources', interval)"
  shows "MinimumPrefetchInterval \<le> interval \<and>
         (filter (\<lambda>d. MinimumPrefetchInterval \<le> d)
            (successDelays (sweepTrace ext xt now sources w)) = [] \<longrightarrow>
            interval = MinimumPrefetchInterval) \<and>
         (filter (\<lambda>d. MinimumPrefetchInterval \<le> d)
            (successDelays (sweepTrace ext xt now sources w)) \<noteq> [] \<and>
          MinimumPrefetchInterval \<notin> set (successDelays (sweepTrace ext xt now sources w)) \<longrightarrow>
            interval = Min (set (filter (\<lambda>d. MinimumPrefetchInterval \<le> d)
                                   (successDelays (sweepTrace ext xt now sources w))))) \<and>
         length sources' = length sources \<and>
         (\<forall>k<length sources. skipped now (sources ! k) \<longrightarrow>
            sources' ! k = sources ! k \<and> sweepTrace ext xt now sources w ! k = None) \<and>
         (\<forall>k<length sources. \<not> skipped now (sources ! k) \<longrightarrow>
            sweepTrace ext xt now sources w ! k \<noteq> None)"
proof -
  let ?ds = "successDelays (sweepTrace ext xt now sources w)"
  let ?fs = "filter (\<lambda>d. MinimumPrefetchInterval \<le> d) ?ds"
  from assms have p: "prefetchLoop ext xt now sources (w, MinimumPrefetchInterval)
                       = (w', sources', interval)"
    by (simp add: PrefetchSources_def)
  have i: "interval = foldl intervalStep MinimumPrefetchInterval ?fs"
    using prefetchLoop_interval[OF p] intervalStep_filter[of MinimumPrefetchInterval ?ds]
    by simp
  have 1: "MinimumPrefetchInterval \<le> interval"
    using i intervalStep_floor[of MinimumPrefetchInterval ?fs] by simp
  have 2: "?fs = [] \<longrightarrow> interval = MinimumPrefetchInterval"
    using i by simp
  have 3: "interval = Min (set ?fs)"
    if "?fs \<noteq> [] \<and> MinimumPrefetchInterval \<notin> set ?ds"
  proof -
    from that have "\<forall>d\<in>set ?fs. MinimumPrefetchInterval < d"
      by (auto simp: less_le)
    from intervalStep_min[OF this, of MinimumPrefetchInterval] that i show ?thesis by simp
  qed
  from 1 2 3 prefetchLoop_sources[OF p] show ?thesis by blast
qed

subsection \<open>Parsing\<close>

lemmas parse_defs = parseV2_def parsePart_def Split_def TrimFunc_IsSpace_def IsSpace_encodings_def
  HasPrefix_def Let_def

lemma HasPrefix_sdns_nonempty: "HasPrefix s ''sdns:'' \<Longrightarrow> 0 < length s"
  by (cases s) (auto simp: HasPrefix_def)

lemma subpartsLoop_second_stamp:
  "0 < length stampStr \<Longrightarrow>
     subpartsLoop ls stampStr description = None \<longleftrightarrow> (\<exists>l\<in>set ls. stampLine l)"
  by (induction ls arbitrary: description) (auto simp: Let_def stampLine_def)

lemma subpartsLoop_keeps_stamp:
  "subpartsLoop ls stampStr description = Some (st, d) \<Longrightarrow> 0 < length stampStr \<Longrightarrow>
     st = stampStr"
  by (induction ls arbitrary: description) (auto simp: Let_def split: if_splits)

lemma subpartsLoop_stamps:
  "(subpartsLoop ls [] description = None \<longleftrightarrow> 2 \<le> length (filter stampLine ls)) \<and>
   (\<forall>st d. subpartsLoop ls [] description = Some (st, d) \<longrightarrow>
      (filter stampLine ls = [] \<longrightarrow> st = []) \<and>
      (\<forall>l. filter stampLine ls = [l] \<longrightarrow> st = TrimFunc_IsSpace l))"
proof (induction ls arbitrary: description)
  case Nil
  then show ?case by simp
next
  case (Cons l ls)
  show ?case
  proof (cases "stampLine l")
    case True
    then have n: "0 < length (TrimFunc_IsSpace l)"
      unfolding stampLine_def by (rule HasPrefix_sdns_nonempty)
    have e: "subpartsLoop (l # ls) [] description
               = subpartsLoop ls (TrimFunc_IsSpace l) description"
      using True by (simp add: Let_def stampLine_def)
    have f: "filter stampLine ls = [] \<longleftrightarrow> \<not> (\<exists>x\<in>set ls. stampLine x)"
      by (simp add: filter_empty_conv)
    have g: "2 \<le> length (filter stampLine (l # ls)) \<longleftrightarrow> (\<exists>x\<in>set ls. stampLine x)"
      using True f by (cases "filter stampLine ls") auto
    show ?thesis
      unfolding e using True g subpartsLoop_second_stamp[OF n, of ls description]
        subpartsLoop_keeps_stamp[OF _ n, of ls description]
      by auto
  next
    case False
    then have "\<exists>d'. subpartsLoop (l # ls) [] description = subpartsLoop ls [] d'"
      by (auto simp: Let_def stampLine_def)
    then obtain d' where e: "subpartsLoop (l # ls) [] description = subpartsLoop ls [] d'"
      by blast
    show ?thesis
      unfolding e using False Cons.IH[of d'] by simp
  qed
qed

lemma parsePart_eq:
  assumes "wellFormedPart p"
  shows "parsePart ext prefix p =
     (case subpartsLoop (tl (Split (TrimFunc_IsSpace p) [CHR 0x0A])) [] [] of
        None \<Rightarrow> StampError (''Multiple stamps for server ['' @ prefix @
                 TrimFunc_IsSpace (hd (Split (TrimFunc_IsSpace p) [CHR 0x0A])) @ '']'')
      | Some (stampStr, description) \<Rightarrow>
          (if length stampStr < 6
           then StampError (''Missing stamp for server ['' @ prefix @
                 TrimFunc_IsSpace (hd (Split (TrimFunc_IsSpace p) [CHR 0x0A])) @ '']'')
           else
             (case NewServerStampFromString ext stampStr of
                Inl msg \<Rightarrow>
                  StampError (''Invalid or unsupported stamp ['' @ stampStr @ '']: '' @ msg)
              | Inr stamp \<Rightarrow>
                  Registered \<lparr>server_name = prefix @
                       TrimFunc_IsSpace (hd (Split (TrimFunc_IsSpace p) [CHR 0x0A])),
                     server_stamp = stamp, server_description = description\<rparr>)))"
proof -
  from assms have "\<not> length (Split (TrimFunc_IsSpace p) [CHR 0x0A]) < 2"
    and "length (TrimFunc_IsSpace (hd (Split (TrimFunc_IsSpace p) [CHR 0x0A]))) \<noteq> 0"
    by (simp_all add: wellFormedPart_def)
  then show ?thesis
    unfolding parsePart_def Let_def by (simp only: if_False append_assoc)
qed

lemma parsePart_wellFormed:
  "parsePart ext prefix p = FormatError \<longleftrightarrow> \<not> wellFormedPart p"
proof (cases "wellFormedPart p")
  case True
  have "parsePart ext prefix p \<noteq> FormatError"
    unfolding parsePart_eq[OF True]
    by (simp split: option.splits prod.splits sum.splits)
  with True show ?thesis by simp
next
  case False
  have "parsePart ext prefix p = FormatError"
  proof (cases "length (Split (TrimFunc_IsSpace p) [CHR 0x0A]) < 2")
    case True
    then show ?thesis
      unfolding parsePart_def Let_def by (simp only: if_True)
  next
    case f: False
    with False have "length (TrimFunc_IsSpace (hd (Split (TrimFunc_IsSpace p) [CHR 0x0A]))) = 0"
      by (simp add: wellFormedPart_def)
    with f show ?thesis
      unfolding parsePart_def Let_def by (simp only: if_True if_False simp_thms)
  qed
  with False show ?thesis by simp
qed

lemma PartsLoop_collects:
  "\<forall>p\<in>set parts. parsePart ext prefix p \<noteq> FormatError \<Longrightarrow>
     PartsLoop ext us prefix parts regs errs =
       (regs @ entriesOf (map (parsePart ext prefix) parts),
        if errs @ stampErrsOf (map (parsePart ext prefix) parts) = [] then None
        else Some (StampErrors
               (Join (errs @ stampErrsOf (map (parsePart ext prefix) parts)) '', '')))"
proof (induction parts arbitrary: regs errs)
  case Nil
  then show ?case by simp
next
  case (Cons p parts)
  from Cons.prems have nf: "parsePart ext prefix p \<noteq> FormatError"
    and rest: "\<forall>q\<in>set parts. parsePart ext prefix q \<noteq> FormatError"
    by simp_all
  note IH = Cons.IH[OF rest]
  show ?case
  proof (cases "parsePart ext prefix p")
    case FormatError
    with nf show ?thesis by simp
  next
    case (StampError e)
    have "PartsLoop ext us prefix (p # parts) regs errs
            = PartsLoop ext us prefix parts regs (errs @ [e])"
      by (simp add: StampError)
    also note IH[of regs "errs @ [e]"]
    finally show ?thesis by (simp add: StampError)
  next
    case (Registered r)
    have "PartsLoop ext us prefix (p # parts) regs errs
            = PartsLoop ext us prefix parts (regs @ [r]) errs"
      by (simp add: Registered)
    also note IH[of "regs @ [r]" errs]
    finally show ?thesis by (simp add: Registered)
  qed
qed

lemma parsePart_multiple:
  assumes "wellFormedPart p"
    and "subpartsLoop (tl (Split (TrimFunc_IsSpace p) [CHR 0x0A])) [] [] = None"
  shows "parsePart ext prefix p =
           StampError (''Multiple stamps for server ['' @ prefix @
              TrimFunc_IsSpace (hd (Split (TrimFunc_IsSpace p) [CHR 0x0A])) @ '']'')"
  unfolding parsePart_eq[OF assms(1)] assms(2) by (simp only: option.case)

lemma parsePart_missing:
  assumes "wellFormedPart p"
    and "subpartsLoop (tl (Split (TrimFunc_IsSpace p) [CHR 0x0A])) [] [] = Some (st, d)"
    and "length st < 6"
  shows "parsePart ext prefix p =
           StampError (''Missing stamp for server ['' @ prefix @
              TrimFunc_IsSpace (hd (Split (TrimFunc_IsSpace p) [CHR 0x0A])) @ '']'')"
  unfolding parsePart_eq[OF assms(1)] assms(2) using assms(3)
  by (simp only: option.case prod.case if_True)

lemma parsePart_invalid:
  assumes "wellFormedPart p"
    and "subpartsLoop (tl (Split (TrimFunc_IsSpace p) [CHR 0x0A])) [] [] = Some (st, d)"
    and "\<not> length st < 6"
    and "NewServerStampFromString ext st = Inl msg"
  shows "parsePart ext prefix p =
           StampError (''Invalid or unsupported stamp ['' @ st @ '']: '' @ msg)"
  unfolding parsePart_eq[OF assms(1)] assms(2) using assms(3,4)
  by (simp only: option.case prod.case if_False sum.case)

lemma parsePart_registered:
  assumes "wellFormedPart p"
    and "subpartsLoop (tl (Split (TrimFunc_IsSpace p) [CHR 0x0A])) [] [] = Some (st, d)"
    and "\<not> length st < 6"
    and "NewServerStampFromString ext st = Inr stamp"
  shows "parsePart ext prefix p =
           Registered \<lparr>server_name = prefix @
                TrimFunc_IsSpace (hd (Split (TrimFunc_IsSpace p) [CHR 0x0A])),
              server_stamp = stamp, server_description = d\<rparr>"
  unfolding parsePart_eq[OF assms(1)] assms(2) using assms(3,4)
  by (simp only: option.case prod.case if_False sum.case)

lemma parsePart_classes:
  assumes "wellFormedPart p"
  shows "(filter stampLine (tl (Split (TrimFunc_IsSpace p) [CHR 0x0A])) = [] \<longrightarrow>
            parsePart ext prefix p =
              StampError (''Missing stamp for server ['' @ prefix @
                 TrimFunc_IsSpace (hd (Split (TrimFunc_IsSpace p) [CHR 0x0A])) @ '']'')) \<and>
         (2 \<le> length (filter stampLine (tl (Split (TrimFunc_IsSpace p) [CHR 0x0A]))) \<longrightarrow>
            parsePart ext prefix p =
              StampError (''Multiple stamps for server ['' @ prefix @
                 TrimFunc_IsSpace (hd (Split (TrimFunc_IsSpace p) [CHR 0x0A])) @ '']'')) \<and>
         (\<forall>l. filter stampLine (tl (Split (TrimFunc_IsSpace p) [CHR 0x0A])) = [l] \<longrightarrow>
            (length (TrimFunc_IsSpace l) < 6 \<longrightarrow>
               parsePart ext prefix p =
                 StampError (''Missing stamp for server ['' @ prefix @
                    TrimFunc_IsSpace (hd (Split (TrimFunc_IsSpace p) [CHR 0x0A])) @ '']'')) \<and>
            (\<forall>msg. 6 \<le> length (TrimFunc_IsSpace l) \<and>
                NewServerStampFromString ext (TrimFunc_IsSpace l) = Inl msg \<longrightarrow>
               parsePart ext prefix p =
                 StampError (''Invalid or unsupported stamp ['' @ TrimFunc_IsSpace l @ '']: ''
                             @ msg)) \<and>
            (\<forall>stamp. 6 \<le> length (TrimFunc_IsSpace l) \<and>
                NewServerStampFromString ext (TrimFunc_IsSpace l) = Inr stamp \<longrightarrow>
               (\<exists>description. parsePart ext prefix p =
                  Registered \<lparr>server_name = prefix @
                       TrimFunc_IsSpace (hd (Split (TrimFunc_IsSpace p) [CHR 0x0A])),
                     server_stamp = stamp, server_description = description\<rparr>)))"
proof -
  let ?ls = "tl (Split (TrimFunc_IsSpace p) [CHR 0x0A])"
  let ?nm = "prefix @ TrimFunc_IsSpace (hd (Split (TrimFunc_IsSpace p) [CHR 0x0A]))"
  note s = subpartsLoop_stamps[of ?ls "[]"]
  show ?thesis
  proof (cases "subpartsLoop ?ls [] []")
    case None
    with s have 2: "2 \<le> length (filter stampLine ?ls)" by blast
    have ne: "filter stampLine ?ls \<noteq> []"
    proof
      assume "filter stampLine ?ls = []"
      then have "length (filter stampLine ?ls) = 0" by (simp only: list.size)
      with 2 show False by linarith
    qed
    have n1: "filter stampLine ?ls \<noteq> [l]" for l
    proof
      assume "filter stampLine ?ls = [l]"
      then have "length (filter stampLine ?ls) = length [l]" by (simp only:)
      with 2 show False by simp
    qed
    note m = parsePart_multiple[OF assms None, of ext prefix]
    from ne n1 m show ?thesis by (simp only: simp_thms)
  next
    case (Some r)
    obtain st d where r: "r = (st, d)" by (cases r)
    note S = Some[unfolded r]
    have n2: "\<not> 2 \<le> length (filter stampLine ?ls)"
      using conjunct1[OF s] unfolding S by simp
    have e: "filter stampLine ?ls = [] \<Longrightarrow> st = []"
      using conjunct2[OF s] S by blast
    have o: "filter stampLine ?ls = [l] \<Longrightarrow> st = TrimFunc_IsSpace l" for l
      using conjunct2[OF s] S by blast
    show ?thesis
    proof (intro conjI impI allI)
      assume "filter stampLine ?ls = []"
      from e[OF this] have "length st < 6" by simp
      from parsePart_missing[OF assms S this]
      show "parsePart ext prefix p = StampError (''Missing stamp for server ['' @
              prefix @ TrimFunc_IsSpace (hd (Split (TrimFunc_IsSpace p) [CHR 0x0A])) @ '']'')" .
    next
      assume "2 \<le> length (filter stampLine ?ls)"
      with n2 show "parsePart ext prefix p =
          StampError (''Multiple stamps for server ['' @
              prefix @ TrimFunc_IsSpace (hd (Split (TrimFunc_IsSpace p) [CHR 0x0A])) @ '']'')"
        by blast
    next
      fix l
      assume f: "filter stampLine ?ls = [l]" and "length (TrimFunc_IsSpace l) < 6"
      then have "length st < 6" using o[OF f] by (simp only:)
      from parsePart_missing[OF assms S this]
      show "parsePart ext prefix p = StampError (''Missing stamp for server ['' @
              prefix @ TrimFunc_IsSpace (hd (Split (TrimFunc_IsSpace p) [CHR 0x0A])) @ '']'')" .
    next
      fix l msg
      assume f: "filter stampLine ?ls = [l]"
        and g: "6 \<le> length (TrimFunc_IsSpace l) \<and>
         NewServerStampFromString ext (TrimFunc_IsSpace l) = Inl msg"
      have st: "st = TrimFunc_IsSpace l" using o[OF f] .
      from g have "\<not> length st < 6" "NewServerStampFromString ext st = Inl msg"
        unfolding st by (simp_all only: not_less)
      from parsePart_invalid[OF assms S this]
      show "parsePart ext prefix p =
                 StampError (''Invalid or unsupported stamp ['' @ TrimFunc_IsSpace l @ '']: ''
                             @ msg)"
        unfolding st .
    next
      fix l stamp
      assume f: "filter stampLine ?ls = [l]"
        and g: "6 \<le> length (TrimFunc_IsSpace l) \<and>
         NewServerStampFromString ext (TrimFunc_IsSpace l) = Inr stamp"
      have st: "st = TrimFunc_IsSpace l" using o[OF f] .
      from g have "\<not> length st < 6" "NewServerStampFromString ext st = Inr stamp"
        unfolding st by (simp_all only: not_less)
      from parsePart_registered[OF assms S this]
      show "\<exists>description. parsePart ext prefix p =
                  Registered \<lparr>server_name = ?nm,
                     server_stamp = stamp, server_description = description\<rparr>"
        by (rule exI)
    qed
  qed
qed

text \<open>
  C6 (amended). For a text with at least one section marker in which every section, once
  trimmed, has at least two lines and a first line that is not empty: a section without a
  stamp line (or with a stamp line shorter than 6 bytes), a section whose stamp does not
  decode, and a section with a second stamp line each add one stamp error, and parsing goes on
  with the sections that follow. The result holds the servers of the other sections, in order,
  and, when there is a stamp error, the error that joins them.
\<close>

theorem parseV2_partial:
  assumes "Split (in_data s) ''## '' = p0 # parts"
    and "parts \<noteq> []"
    and "\<forall>p\<in>set parts. wellFormedPart p"
  shows "parseV2 ext s prefix =
           (entriesOf (map (parsePart ext prefix) parts),
            if stampErrsOf (map (parsePart ext prefix) parts) = [] then None
            else Some (StampErrors (Join (stampErrsOf (map (parsePart ext prefix) parts)) '', ''))) \<and>
         (\<forall>p\<in>set parts.
            (filter stampLine (tl (Split (TrimFunc_IsSpace p) [CHR 0x0A])) = [] \<longrightarrow>
               parsePart ext prefix p =
                 StampError (''Missing stamp for server ['' @ prefix @
                    TrimFunc_IsSpace (hd (Split (TrimFunc_IsSpace p) [CHR 0x0A])) @ '']'')) \<and>
            (2 \<le> length (filter stampLine (tl (Split (TrimFunc_IsSpace p) [CHR 0x0A]))) \<longrightarrow>
               parsePart ext prefix p =
                 StampError (''Multiple stamps for server ['' @ prefix @
                    TrimFunc_IsSpace (hd (Split (TrimFunc_IsSpace p) [CHR 0x0A])) @ '']'')) \<and>
            (\<forall>l. filter stampLine (tl (Split (TrimFunc_IsSpace p) [CHR 0x0A])) = [l] \<longrightarrow>
               (length (TrimFunc_IsSpace l) < 6 \<longrightarrow>
                  parsePart ext prefix p =
                    StampError (''Missing stamp for server ['' @ prefix @
                       TrimFunc_IsSpace (hd (Split (TrimFunc_IsSpace p) [CHR 0x0A])) @ '']'')) \<and>
               (\<forall>msg. 6 \<le> length (TrimFunc_IsSpace l) \<and>
                   NewServerStampFromString ext (TrimFunc_IsSpace l) = Inl msg \<longrightarrow>
                  parsePart ext prefix p =
                    StampError (''Invalid or unsupported stamp ['' @ TrimFunc_IsSpace l @ '']: ''
                                @ msg)) \<and>
               (\<forall>stamp. 6 \<le> length (TrimFunc_IsSpace l) \<and>
                   NewServerStampFromString ext (TrimFunc_IsSpace l) = Inr stamp \<longrightarrow>
                  (\<exists>description. parsePart ext prefix p =
                     Registered \<lparr>server_name = prefix @
                          TrimFunc_IsSpace (hd (Split (TrimFunc_IsSpace p) [CHR 0x0A])),
                        server_stamp = stamp, server_description = description\<rparr>))))"
proof -
  have nf: "\<forall>p\<in>set parts. parsePart ext prefix p \<noteq> FormatError"
    using assms(3) by (simp add: parsePart_wellFormed)
  have "parseV2 ext s prefix = PartsLoop ext (urls s) prefix parts [] []"
    using assms(1,2) by (cases parts) (simp_all add: parseV2_def Let_def)
  then have a: "parseV2 ext s prefix =
           (entriesOf (map (parsePart ext prefix) parts),
            if stampErrsOf (map (parsePart ext prefix) parts) = [] then None
            else Some (StampErrors (Join (stampErrsOf (map (parsePart ext prefix) parts)) '', '')))"
    using PartsLoop_collects[OF nf, of "urls s" "[]" "[]"] by simp
  show ?thesis
  proof (rule conjI[OF a], rule ballI)
    fix p assume "p \<in> set parts"
    with assms(3) have "wellFormedPart p" by simp
    from parsePart_classes[OF this, of ext prefix]
    show "(filter stampLine (tl (Split (TrimFunc_IsSpace p) [CHR 0x0A])) = [] \<longrightarrow>
               parsePart ext prefix p =
                 StampError (''Missing stamp for server ['' @ prefix @
                    TrimFunc_IsSpace (hd (Split (TrimFunc_IsSpace p) [CHR 0x0A])) @ '']'')) \<and>
            (2 \<le> length (filter stampLine (tl (Split (TrimFunc_IsSpace p) [CHR 0x0A]))) \<longrightarrow>
               parsePart ext prefix p =
                 StampError (''Multiple stamps for server ['' @ prefix @
                    TrimFunc_IsSpace (hd (Split (TrimFunc_IsSpace p) [CHR 0x0A])) @ '']'')) \<and>
            (\<forall>l. filter stampLine (tl (Split (TrimFunc_IsSpace p) [CHR 0x0A])) = [l] \<longrightarrow>
               (length (TrimFunc_IsSpace l) < 6 \<longrightarrow>
                  parsePart ext prefix p =
                    StampError (''Missing stamp for server ['' @ prefix @
                       TrimFunc_IsSpace (hd (Split (TrimFunc_IsSpace p) [CHR 0x0A])) @ '']'')) \<and>
               (\<forall>msg. 6 \<le> length (TrimFunc_IsSpace l) \<and>
                   NewServerStampFromString ext (TrimFunc_IsSpace l) = Inl msg \<longrightarrow>
                  parsePart ext prefix p =
                    StampError (''Invalid or unsupported stamp ['' @ TrimFunc_IsSpace l @ '']: ''
                                @ msg)) \<and>
               (\<forall>stamp. 6 \<le> length (TrimFunc_IsSpace l) \<and>
                   NewServerStampFromString ext (TrimFunc_IsSpace l) = Inr stamp \<longrightarrow>
                  (\<exists>description. parsePart ext prefix p =
                     Registered \<lparr>server_name = prefix @
                          TrimFunc_IsSpace (hd (Split (TrimFunc_IsSpace p) [CHR 0x0A])),
                        server_stamp = stamp, server_description = description\<rparr>)))" .
  qed
qed

section \<open>The theorems on the concrete instance\<close>

theorem NewSource_cacheTTL_witness:
  "cacheTTL (fst (snd (NewSource demoExt demoNet (1000 * Hour) (demoWorld 0 []) ''demo''
      [''/m3''] ''K'' ''nocache'' ''v2'' Hour))) = 24 * Hour \<and>
   cacheTTL (fst (snd (NewSource demoExt demoNet (1000 * Hour) (demoWorld 0 []) ''demo''
      [''/m3''] ''K'' ''nocache'' ''v2'' (72 * Hour)))) = 72 * Hour \<and>
   cacheTTL (fst (snd (NewSource demoExt demoNet (1000 * Hour) (demoWorld 0 []) ''demo''
      [''/m3''] ''K'' ''nocache'' ''v1'' Hour))) = 24 * Hour"
  using NewSource_cacheTTL[of demoExt demoNet "1000 * Hour" "demoWorld 0 []" "''demo''"
      "[''/m3'']" "''K''" "''nocache''" "''v2''" Hour]
    NewSource_cacheTTL[of demoExt demoNet "1000 * Hour" "demoWorld 0 []" "''demo''"
      "[''/m3'']" "''K''" "''nocache''" "''v2''" "72 * Hour"]
    NewSource_cacheTTL[of demoExt demoNet "1000 * Hour" "demoWorld 0 []" "''demo''"
      "[''/m3'']" "''K''" "''nocache''" "''v1''" Hour]
  by (simp add: DefaultPrefetchDelay_def Hour_def Minute_def)

theorem failed_refresh_keeps_floor_witness:
  "urls (demoSource ''nocache'' [''/m1''] (24 * Hour) 0) \<noteq> [] \<and>
   fetchWithCache demoExt demoNet (1000 * Hour)
      (demoWorld 0 [], demoSource ''nocache'' [''/m1''] (24 * Hour) 0)
     = (demoWorld 0 []\<lparr>requests := [demoURL ''/m1'']\<rparr>,
        (demoSource ''nocache'' [''/m1''] (24 * Hour) 0)\<lparr>refresh := 1000 * Hour + 10 * Minute\<rparr>,
        10 * Minute, Some (External ''connection refused'')) \<and>
   Time_Sub (1000 * Hour + 10 * Minute) (1000 * Hour) = 600000000000"
proof -
  have u: "urls (demoSource ''nocache'' [''/m1''] (24 * Hour) 0) \<noteq> []"
    by (simp add: demoSource_def)
  have r: "fetchWithCache demoExt demoNet (1000 * Hour)
      (demoWorld 0 [], demoSource ''nocache'' [''/m1''] (24 * Hour) 0)
     = (demoWorld 0 []\<lparr>requests := [demoURL ''/m1'']\<rparr>,
     (demoSource ''nocache'' [''/m1''] (24 * Hour) 0)\<lparr>refresh := 1000 * Hour + 10 * Minute\<rparr>,
     10 * Minute, Some (External ''connection refused''))"
    by (simp add: demo_defs run_defs)
  from failed_refresh_keeps_floor[OF u r] u r show ?thesis
    by (simp add: MinimumPrefetchInterval_def Minute_def)
qed

theorem content_only_verified_witness:
  "fetchWithCache demoExt demoNet (1000 * Hour)
      (demoWorld 0 [], demoSource ''cache'' [''/m1'', ''/m2'', ''/m3''] (24 * Hour) 0)
     = (demoWorld (1000 * Hour) []
          \<lparr>files := [''cache'' \<mapsto> ''list three'', ''cache.minisig'' \<mapsto> ''signed:list three''],
           requests := [demoURL ''/m1'', demoURL ''/m2'', demoURL ''/m2.minisig'',
                        demoURL ''/m3'', demoURL ''/m3.minisig''],
           writeAttempts := [''cache'', ''cache.minisig'']\<rparr>,
        (demoSource ''cache'' [''/m1'', ''/m2'', ''/m3''] (24 * Hour) 0)
          \<lparr>in_data := ''list three'', refresh := 1024 * Hour\<rparr>,
        24 * Hour, None) \<and>
   checkSignature demoExt (demoSource ''cache'' [''/m1'', ''/m2'', ''/m3''] (24 * Hour) 0)
     ''list three'' ''signed:list three'' = None \<and>
   download demoExt demoNet (demoURL ''/m3'') = (''list three'', None) \<and>
   download demoExt demoNet (demoURL ''/m3.minisig'') = (''signed:list three'', None) \<and>
   checkSignature demoExt (demoSource ''cache'' [''/m1'', ''/m2'', ''/m3''] (24 * Hour) 0)
     ''list two'' ''signed:other'' \<noteq> None"
proof -
  let ?s = "demoSource ''cache'' [''/m1'', ''/m2'', ''/m3''] (24 * Hour) 0"
  have r: "fetchWithCache demoExt demoNet (1000 * Hour) (demoWorld 0 [], ?s)
     = (demoWorld (1000 * Hour) []
          \<lparr>files := [''cache'' \<mapsto> ''list three'', ''cache.minisig'' \<mapsto> ''signed:list three''],
           requests := [demoURL ''/m1'', demoURL ''/m2'', demoURL ''/m2.minisig'',
                        demoURL ''/m3'', demoURL ''/m3.minisig''],
           writeAttempts := [''cache'', ''cache.minisig'']\<rparr>,
        ?s\<lparr>in_data := ''list three'', refresh := 1024 * Hour\<rparr>,
        24 * Hour, None)"
    by (simp add: demo_defs run_defs fun_upd_twist)
  from content_only_verified[of demoExt "demoWorld 0 []" "1000 * Hour" ?s demoNet] r
  have "in_data (?s\<lparr>in_data := ''list three'', refresh := 1024 * Hour\<rparr>) = in_data ?s \<or>
      (\<exists>sig. checkSignature demoExt ?s
                (in_data (?s\<lparr>in_data := ''list three'', refresh := 1024 * Hour\<rparr>)) sig = None)"
    by blast
  with r show ?thesis
    by (simp add: demo_defs run_defs)
qed


theorem NewSource_prefetchDelay_witness:
  "NewSource demoExt demoNet (1000 * Hour) (demoWorld 0 []) ''demo'' [''/m3''] ''K''
      ''nocache'' ''v2'' Hour
     = (demoWorld 0 []
          \<lparr>files := [''cache'' \<mapsto> ''old list'', ''cache.minisig'' \<mapsto> ''signed:old list'',
                     ''nocache'' \<mapsto> ''list three'',
                     ''nocache.minisig'' \<mapsto> ''signed:list three''],
           modTimes := [''cache'' \<mapsto> 0, ''cache.minisig'' \<mapsto> 0,
                        ''nocache'' \<mapsto> 1000 * Hour, ''nocache.minisig'' \<mapsto> 1000 * Hour],
           requests := [demoURL ''/m3'', demoURL ''/m3.minisig''],
           writeAttempts := [''nocache'', ''nocache.minisig'']\<rparr>,
        (demoSource ''nocache'' [''/m3''] (24 * Hour) (1024 * Hour))\<lparr>in_data := ''list three''\<rparr>,
        None) \<and>
   prefetchDelay ((demoSource ''nocache'' [''/m3''] (24 * Hour) (1024 * Hour))
                    \<lparr>in_data := ''list three''\<rparr>) = 24 * Hour \<and>
   refresh ((demoSource ''nocache'' [''/m3''] (24 * Hour) (1024 * Hour))
                    \<lparr>in_data := ''list three''\<rparr>) = Time_Add (1000 * Hour) (24 * Hour)"
proof -
  let ?s = "(demoSource ''nocache'' [''/m3''] (24 * Hour) (1024 * Hour))\<lparr>in_data := ''list three''\<rparr>"
  let ?w = "demoWorld 0 []
          \<lparr>files := [''cache'' \<mapsto> ''old list'', ''cache.minisig'' \<mapsto> ''signed:old list'',
                     ''nocache'' \<mapsto> ''list three'',
                     ''nocache.minisig'' \<mapsto> ''signed:list three''],
           modTimes := [''cache'' \<mapsto> 0, ''cache.minisig'' \<mapsto> 0,
                        ''nocache'' \<mapsto> 1000 * Hour, ''nocache.minisig'' \<mapsto> 1000 * Hour],
           requests := [demoURL ''/m3'', demoURL ''/m3.minisig''],
           writeAttempts := [''nocache'', ''nocache.minisig'']\<rparr>"
  have r: "NewSource demoExt demoNet (1000 * Hour) (demoWorld 0 []) ''demo'' [''/m3''] ''K''
      ''nocache'' ''v2'' Hour = (?w, ?s, None)"
    by (simp add: demo_defs run_defs)
  have q: "requests ?w \<noteq> requests (demoWorld 0 [])"
    by (simp add: demoWorld_def)
  from NewSource_prefetchDelay[OF r] q
  have "prefetchDelay ?s = 24 * Hour \<and> refresh ?s = Time_Add (1000 * Hour) (24 * Hour)"
    by blast
  with r show ?thesis by simp
qed

theorem fresh_cache_schedule_witness:
  "urls (demoSource ''cache'' [''/m3''] (24 * Hour) 0) \<noteq> [] \<and>
   files (demoWorld 0 []) ''cache'' = Some ''old list'' \<and>
   files (demoWorld 0 []) ''cache.minisig'' = Some ''signed:old list'' \<and>
   checkSignature demoExt (demoSource ''cache'' [''/m3''] (24 * Hour) 0)
     ''old list'' ''signed:old list'' = None \<and>
   fetchWithCache demoExt demoNet (1000 * Hour)
     (demoWorld 0 []\<lparr>modTimes := (modTimes (demoWorld 0 []))
                         (''cache'' \<mapsto> 1000 * Hour - (24 * Hour - Minute))\<rparr>,
      demoSource ''cache'' [''/m3''] (24 * Hour) 0)
     = (demoWorld 0 []\<lparr>modTimes := (modTimes (demoWorld 0 []))
                         (''cache'' \<mapsto> 1000 * Hour - (24 * Hour - Minute))\<rparr>,
        (demoSource ''cache'' [''/m3''] (24 * Hour) 0)
          \<lparr>in_data := ''old list'', refresh := Time_Add (1000 * Hour) Minute\<rparr>,
        Minute, None) \<and>
   0 < Minute \<and> Minute < MinimumPrefetchInterval"
proof -
  let ?s = "demoSource ''cache'' [''/m3''] (24 * Hour) 0"
  have u: "urls ?s \<noteq> []" by (simp add: demoSource_def)
  have f: "files (demoWorld 0 []) (cacheFile ?s) = Some ''old list''"
    by (simp add: demo_defs)
  have g: "files (demoWorld 0 []) (cacheFile ?s @ ''.minisig'') = Some ''signed:old list''"
    by (simp add: demo_defs)
  have c: "checkSignature demoExt ?s ''old list'' ''signed:old list'' = None"
    by (simp add: demo_defs checkSignature_def)
  have d: "0 < Minute \<and> Minute \<le> prefetchDelay ?s \<and> prefetchDelay ?s \<le> maxDuration \<and>
           prefetchDelay ?s - Minute < cacheTTL ?s"
    by (simp add: demo_defs maxDuration_def DefaultPrefetchDelay_def Hour_def Minute_def)
  have m: "Minute < MinimumPrefetchInterval"
    by (simp add: MinimumPrefetchInterval_def Minute_def)
  from fresh_cache_schedule[OF u f g c, of "1000 * Hour" demoNet] d
  have "fetchWithCache demoExt demoNet (1000 * Hour)
     (demoWorld 0 []\<lparr>modTimes := (modTimes (demoWorld 0 []))
                         (cacheFile ?s \<mapsto> 1000 * Hour - (prefetchDelay ?s - Minute))\<rparr>, ?s)
     = (demoWorld 0 []\<lparr>modTimes := (modTimes (demoWorld 0 []))
                         (cacheFile ?s \<mapsto> 1000 * Hour - (prefetchDelay ?s - Minute))\<rparr>,
        ?s\<lparr>in_data := ''old list'', refresh := Time_Add (1000 * Hour) Minute\<rparr>,
        Minute, None)"
    by blast
  moreover have "cacheFile ?s = ''cache''" "prefetchDelay ?s = 24 * Hour"
    by (simp_all add: demoSource_def DefaultPrefetchDelay_def)
  ultimately show ?thesis using u f g c d m by simp
qed

theorem fresh_cache_idempotent_witness:
  "files (demoWorld (990 * Hour) []) ''cache'' = Some ''old list'' \<and>
   files (demoWorld (990 * Hour) []) ''cache.minisig'' = Some ''signed:old list'' \<and>
   checkSignature demoExt (demoSource ''cache'' [''/m3''] (72 * Hour) 0)
     ''old list'' ''signed:old list'' = None \<and>
   Time_Sub (1000 * Hour) (990 * Hour) < 72 * Hour \<and>
   0 < int64 (24 * Hour - Time_Sub (1000 * Hour) (990 * Hour)) \<and>
   (\<exists>s1 d1 s2 d2.
      fetchWithCache demoExt demoNet (1000 * Hour)
        (demoWorld (990 * Hour) [], demoSource ''cache'' [''/m3''] (72 * Hour) 0)
        = (demoWorld (990 * Hour) [], s1, d1, None) \<and>
      fetchWithCache demoExt demoNet (1000 * Hour) (demoWorld (990 * Hour) [], s1)
        = (demoWorld (990 * Hour) [], s2, d2, None) \<and>
      in_data s1 = ''old list'' \<and> in_data s2 = ''old list'')"
proof -
  let ?s = "demoSource ''cache'' [''/m3''] (72 * Hour) 0"
  let ?w = "demoWorld (990 * Hour) []"
  have f: "files ?w (cacheFile ?s) = Some ''old list''"
    by (simp add: demo_defs)
  have g: "files ?w (cacheFile ?s @ ''.minisig'') = Some ''signed:old list''"
    by (simp add: demo_defs)
  have c: "checkSignature demoExt ?s ''old list'' ''signed:old list'' = None"
    by (simp add: demo_defs checkSignature_def)
  have m: "modTimes ?w (cacheFile ?s) = Some (990 * Hour)"
    by (simp add: demo_defs)
  have a: "Time_Sub (1000 * Hour) (990 * Hour) < cacheTTL ?s"
    by (simp add: demo_defs run_defs)
  have p: "urls ?s = [] \<or> 0 < int64 (prefetchDelay ?s - Time_Sub (1000 * Hour) (990 * Hour))"
    by (simp add: demo_defs run_defs)
  have a': "Time_Sub (1000 * Hour) (990 * Hour) < 72 * Hour"
    by (simp add: run_defs)
  have p': "0 < int64 (24 * Hour - Time_Sub (1000 * Hour) (990 * Hour))"
    by (simp add: run_defs)
  from fresh_cache_idempotent[OF f g c m a p a p, of demoNet] f g c a' p'
  show ?thesis
    by (simp add: demoSource_def)
qed

theorem fresh_cache_network_counterexample:
  "files (demoWorld (970 * Hour) []) ''cache'' = Some ''old list'' \<and>
   files (demoWorld (970 * Hour) []) ''cache.minisig'' = Some ''signed:old list'' \<and>
   checkSignature demoExt (demoSource ''cache'' [''/m1''] (72 * Hour) 0)
     ''old list'' ''signed:old list'' = None \<and>
   modTimes (demoWorld (970 * Hour) []) ''cache'' = Some (970 * Hour) \<and>
   Time_Sub (1000 * Hour) (970 * Hour) < cacheTTL (demoSource ''cache'' [''/m1''] (72 * Hour) 0) \<and>
   fetchWithCache demoExt demoNet (1000 * Hour)
     (demoWorld (970 * Hour) [], demoSource ''cache'' [''/m1''] (72 * Hour) 0)
     = (demoWorld (970 * Hour) []\<lparr>requests := [demoURL ''/m1'']\<rparr>,
        (demoSource ''cache'' [''/m1''] (72 * Hour) 0)
          \<lparr>in_data := ''old list'', refresh := 1000 * Hour + 10 * Minute\<rparr>,
        10 * Minute, Some (External ''connection refused'')) \<and>
   fetchWithCache demoExt demoNet (1000 * Hour)
     (demoWorld (970 * Hour) []\<lparr>requests := [demoURL ''/m1'']\<rparr>,
      (demoSource ''cache'' [''/m1''] (72 * Hour) 0)
          \<lparr>in_data := ''old list'', refresh := 1000 * Hour + 10 * Minute\<rparr>)
     = (demoWorld (970 * Hour) []\<lparr>requests := [demoURL ''/m1'', demoURL ''/m1'']\<rparr>,
        (demoSource ''cache'' [''/m1''] (72 * Hour) 0)
          \<lparr>in_data := ''old list'', refresh := 1000 * Hour + 10 * Minute\<rparr>,
        10 * Minute, Some (External ''connection refused''))"
  by (simp add: demo_defs run_defs)

theorem mirror_fallback_witness:
  "mirrorOutcome demoExt demoNet (demoSource ''cache'' [''/m1'', ''/m2'', ''/m3''] (24 * Hour) 0)
     (demoURL ''/m1'') = Inl (External ''connection refused'') \<and>
   mirrorOutcome demoExt demoNet (demoSource ''cache'' [''/m1'', ''/m2'', ''/m3''] (24 * Hour) 0)
     (demoURL ''/m2'') = Inl (External ''signature mismatch'') \<and>
   mirrorOutcome demoExt demoNet (demoSource ''cache'' [''/m1'', ''/m2'', ''/m3''] (24 * Hour) 0)
     (demoURL ''/m3'') = Inr (''list three'', ''signed:list three'') \<and>
   fetchLoop demoExt demoNet (demoSource ''cache'' [''/m1'', ''/m2'', ''/m3''] (24 * Hour) 0)
     [demoURL ''/m1'', demoURL ''/m2'', demoURL ''/m3''] (demoWorld 0 [], [], [], None) =
     (demoWorld 0 []\<lparr>requests := [demoURL ''/m1'', demoURL ''/m2'', demoURL ''/m2.minisig'',
                                    demoURL ''/m3'', demoURL ''/m3.minisig'']\<rparr>,
      ''list three'', ''signed:list three'', None) \<and>
   (\<exists>b g. fetchLoop demoExt demoNet (demoSource ''cache'' [''/m1'', ''/m2'', ''/m3''] (24 * Hour) 0)
     [demoURL ''/m1'', demoURL ''/m2''] (demoWorld 0 [], [], [], None) =
     (demoWorld 0 []\<lparr>requests := [demoURL ''/m1'', demoURL ''/m2'', demoURL ''/m2.minisig'']\<rparr>,
      b, g, Some (External ''signature mismatch'')))"
proof -
  let ?s = "demoSource ''cache'' [''/m1'', ''/m2'', ''/m3''] (24 * Hour) 0"
  have o1: "mirrorOutcome demoExt demoNet ?s (demoURL ''/m1'') = Inl (External ''connection refused'')"
    by (simp add: mirrorOutcome_def demo_defs run_defs)
  have o2: "mirrorOutcome demoExt demoNet ?s (demoURL ''/m2'') = Inl (External ''signature mismatch'')"
    by (simp add: mirrorOutcome_def demo_defs run_defs)
  have o3: "mirrorOutcome demoExt demoNet ?s (demoURL ''/m3'')
              = Inr (''list three'', ''signed:list three'')"
    by (simp add: mirrorOutcome_def demo_defs run_defs)
  have q: "concat (map (mirrorRequests demoExt demoNet)
             ([demoURL ''/m1'', demoURL ''/m2''] @ [demoURL ''/m3'']))
           = [demoURL ''/m1'', demoURL ''/m2'', demoURL ''/m2.minisig'',
              demoURL ''/m3'', demoURL ''/m3.minisig'']"
    by (simp add: mirrorRequests_def demo_defs run_defs)
  have q2: "concat (map (mirrorRequests demoExt demoNet) [demoURL ''/m1'', demoURL ''/m2''])
           = [demoURL ''/m1'', demoURL ''/m2'', demoURL ''/m2.minisig'']"
    by (simp add: mirrorRequests_def demo_defs run_defs)
  have p: "\<forall>u\<in>set [demoURL ''/m1'', demoURL ''/m2'']. isl (mirrorOutcome demoExt demoNet ?s u)"
    using o1 o2 by simp
  note t = mirror_fallback[of "[demoURL ''/m1'', demoURL ''/m2'', demoURL ''/m3'']"
      demoExt demoNet ?s "demoWorld 0 []" "[]" "[]" None]
  note t2 = mirror_fallback[of "[demoURL ''/m1'', demoURL ''/m2'']"
      demoExt demoNet ?s "demoWorld 0 []" "[]" "[]" None]
  have a: "fetchLoop demoExt demoNet ?s [demoURL ''/m1'', demoURL ''/m2'', demoURL ''/m3'']
         (demoWorld 0 [], [], [], None) =
        (demoWorld 0 []\<lparr>requests := requests (demoWorld 0 []) @
           concat (map (mirrorRequests demoExt demoNet)
             ([demoURL ''/m1'', demoURL ''/m2''] @ [demoURL ''/m3'']))\<rparr>,
         ''list three'', ''signed:list three'', None)"
    using t p o3 by (elim conjE allE[of _ "[demoURL ''/m1'', demoURL ''/m2'']"]
        allE[of _ "demoURL ''/m3''"] allE[of _ "[]"]
        allE[of _ "''list three''"] allE[of _ "''signed:list three''"]) simp
  have b: "\<exists>b g. fetchLoop demoExt demoNet ?s [demoURL ''/m1'', demoURL ''/m2'']
         (demoWorld 0 [], [], [], None) =
        (demoWorld 0 []\<lparr>requests := requests (demoWorld 0 []) @
           concat (map (mirrorRequests demoExt demoNet) [demoURL ''/m1'', demoURL ''/m2''])\<rparr>,
         b, g, Some (projl (mirrorOutcome demoExt demoNet ?s (last [demoURL ''/m1'', demoURL ''/m2'']))))"
    using t2 p by simp
  have rq: "requests (demoWorld 0 []) = []" by (simp add: demoWorld_def)
  from a b o1 o2 o3 show ?thesis
    unfolding q q2 rq by simp
qed

theorem writeToCache_outcomes_witness:
  "writeToCache (demoWorld 0 [''cache'']) (demoSource ''cache'' [] (24 * Hour) 0)
     ''new list'' ''signed:new list''
     = (demoWorld 0 [''cache'']\<lparr>writeAttempts := [''cache'']\<rparr>, Some (WriteFileError ''cache'')) \<and>
   writeFails (demoWorld 0 [''cache'']) ''cache'' \<and>
   files (demoWorld 0 [''cache'']\<lparr>writeAttempts := [''cache'']\<rparr>) = files (demoWorld 0 [''cache'']) \<and>
   writeToCache (demoWorld 0 []) (demoSource ''cache'' [] (24 * Hour) 0)
     ''new list'' ''signed:new list''
     = (demoWorld 0 []
          \<lparr>files := [''cache'' \<mapsto> ''new list'', ''cache.minisig'' \<mapsto> ''signed:new list''],
           modTimes := [''cache'' \<mapsto> 1000 * Hour, ''cache.minisig'' \<mapsto> 1000 * Hour],
           writeAttempts := [''cache'', ''cache.minisig'']\<rparr>, None)"
proof -
  let ?s = "demoSource ''cache'' [] (24 * Hour) 0"
  have r1: "writeToCache (demoWorld 0 [''cache'']) ?s ''new list'' ''signed:new list''
     = (demoWorld 0 [''cache'']\<lparr>writeAttempts := [''cache'']\<rparr>, Some (WriteFileError ''cache''))"
    by (simp add: demo_defs run_defs)
  have r2: "writeToCache (demoWorld 0 []) ?s ''new list'' ''signed:new list''
     = (demoWorld 0 []
          \<lparr>files := [''cache'' \<mapsto> ''new list'', ''cache.minisig'' \<mapsto> ''signed:new list''],
           modTimes := [''cache'' \<mapsto> 1000 * Hour, ''cache.minisig'' \<mapsto> 1000 * Hour],
           writeAttempts := [''cache'', ''cache.minisig'']\<rparr>, None)"
    by (simp add: demo_defs run_defs)
  have f: "writeFails (demoWorld 0 [''cache'']) (cacheFile ?s)"
    by (simp add: demo_defs)
  from writeToCache_outcomes[OF r1] f
  have "files (demoWorld 0 [''cache'']\<lparr>writeAttempts := [''cache'']\<rparr>) = files (demoWorld 0 [''cache''])"
    by blast
  with r1 r2 f show ?thesis by (simp add: demoSource_def)
qed

theorem writeToCache_torn_pair_counterexample:
  "files (fst (writeToCache (demoWorld 0 [''cache.minisig'']) (demoSource ''cache'' [] (24 * Hour) 0)
     ''new list'' ''signed:new list'')) ''cache'' = Some ''new list'' \<and>
   files (fst (writeToCache (demoWorld 0 [''cache.minisig'']) (demoSource ''cache'' [] (24 * Hour) 0)
     ''new list'' ''signed:new list'')) ''cache.minisig'' = Some ''signed:old list'' \<and>
   files (demoWorld 0 [''cache.minisig'']) ''cache'' = Some ''old list'' \<and>
   files (demoWorld 0 [''cache.minisig'']) ''cache.minisig'' = Some ''signed:old list''"
  by (simp add: demo_defs run_defs)

theorem PrefetchSources_interval_witness:
  "snd (snd (PrefetchSources demoExt demoNet (1000 * Hour) (demoWorld (977 * Hour) [])
     [demoSource ''cache'' [''/m3''] (24 * Hour) 0,
      demoSource ''nocache'' [''/m3''] (24 * Hour) (1000 * Hour),
      demoSource ''cache'' [''/m3''] (24 * Hour) (999 * Hour)])) = Hour \<and>
   sweepTrace demoExt demoNet (1000 * Hour)
     [demoSource ''cache'' [''/m3''] (24 * Hour) 0,
      demoSource ''nocache'' [''/m3''] (24 * Hour) (1000 * Hour),
      demoSource ''cache'' [''/m3''] (24 * Hour) (999 * Hour)] (demoWorld (977 * Hour) [])
     = [None, Some (24 * Hour, None), Some (Hour, None)] \<and>
   Min (set (filter (\<lambda>d. MinimumPrefetchInterval \<le> d) [24 * Hour, Hour])) = Hour \<and>
   MinimumPrefetchInterval \<le> Hour"
proof -
  let ?ss = "[demoSource ''cache'' [''/m3''] (24 * Hour) 0,
      demoSource ''nocache'' [''/m3''] (24 * Hour) (1000 * Hour),
      demoSource ''cache'' [''/m3''] (24 * Hour) (999 * Hour)]"
  let ?w = "demoWorld (977 * Hour) []"
  have tr: "sweepTrace demoExt demoNet (1000 * Hour) ?ss ?w
              = [None, Some (24 * Hour, None), Some (Hour, None)]"
    by (simp add: demo_defs run_defs Time_IsZero_def Time_After_def)
  have i: "snd (snd (PrefetchSources demoExt demoNet (1000 * Hour) ?w ?ss)) = Hour"
    by (simp add: PrefetchSources_def demo_defs run_defs Time_IsZero_def Time_After_def)
  obtain w' ss' where r: "PrefetchSources demoExt demoNet (1000 * Hour) ?w ?ss = (w', ss', Hour)"
    using i by (cases "PrefetchSources demoExt demoNet (1000 * Hour) ?w ?ss") auto
  have m: "MinimumPrefetchInterval \<notin> set [24 * Hour, Hour]"
    by (simp add: MinimumPrefetchInterval_def Hour_def Minute_def)
  have f: "filter (\<lambda>d. MinimumPrefetchInterval \<le> d) [24 * Hour, Hour] = [24 * Hour, Hour]"
    by (simp add: MinimumPrefetchInterval_def Hour_def Minute_def)
  have sd: "successDelays (sweepTrace demoExt demoNet (1000 * Hour) ?ss ?w) = [24 * Hour, Hour]"
    unfolding tr by simp
  from PrefetchSources_interval[OF r]
  have a: "MinimumPrefetchInterval \<le> Hour"
    and b: "filter (\<lambda>d. MinimumPrefetchInterval \<le> d)
              (successDelays (sweepTrace demoExt demoNet (1000 * Hour) ?ss ?w)) \<noteq> [] \<and>
            MinimumPrefetchInterval
              \<notin> set (successDelays (sweepTrace demoExt demoNet (1000 * Hour) ?ss ?w)) \<longrightarrow>
            Hour = Min (set (filter (\<lambda>d. MinimumPrefetchInterval \<le> d)
              (successDelays (sweepTrace demoExt demoNet (1000 * Hour) ?ss ?w))))"
    by blast+
  have ne: "filter (\<lambda>d. MinimumPrefetchInterval \<le> d) [24 * Hour, Hour] \<noteq> []"
    unfolding f by simp
  have "Hour = Min (set (filter (\<lambda>d. MinimumPrefetchInterval \<le> d) [24 * Hour, Hour]))"
    using mp[OF b[unfolded sd] conjI[OF ne m]] .
  with a tr i show ?thesis by metis
qed

theorem PrefetchSources_interval_counterexample:
  "snd (snd (PrefetchSources demoExt demoNet (1000 * Hour) (demoWorld 0 [])
     [demoSource ''nocache1'' [''/m1''] (24 * Hour) (1000 * Hour),
      demoSource ''nocache'' [''/m3''] (24 * Hour) (1000 * Hour)])) = 24 * Hour \<and>
   sweepTrace demoExt demoNet (1000 * Hour)
     [demoSource ''nocache1'' [''/m1''] (24 * Hour) (1000 * Hour),
      demoSource ''nocache'' [''/m3''] (24 * Hour) (1000 * Hour)] (demoWorld 0 [])
     = [Some (10 * Minute, Some (External ''connection refused'')), Some (24 * Hour, None)] \<and>
   snd (snd (PrefetchSources demoExt demoNet (1000 * Hour)
     (demoWorld (1000 * Hour - (24 * Hour - 10 * Minute)) [])
     [demoSource ''cache'' [''/m3''] (24 * Hour) (1000 * Hour),
      demoSource ''nocache'' [''/m3''] (24 * Hour) (1000 * Hour)])) = 24 * Hour \<and>
   sweepTrace demoExt demoNet (1000 * Hour)
     [demoSource ''cache'' [''/m3''] (24 * Hour) (1000 * Hour),
      demoSource ''nocache'' [''/m3''] (24 * Hour) (1000 * Hour)]
     (demoWorld (1000 * Hour - (24 * Hour - 10 * Minute)) [])
     = [Some (10 * Minute, None), Some (24 * Hour, None)] \<and>
   MinimumPrefetchInterval = 10 * Minute \<and>
   Min (set (filter (\<lambda>d. MinimumPrefetchInterval \<le> d) [10 * Minute, 24 * Hour])) = 10 * Minute \<and>
   10 * Minute < 24 * Hour"
  by (simp add: PrefetchSources_def demo_defs run_defs Time_IsZero_def Time_After_def)

theorem parseV2_partial_witness:
  "Split (in_data (demoList ''## A\<newline>sdns://bad\<newline>## B\<newline>sdns://ok\<newline>'')) ''## ''
     = [[], ''A\<newline>sdns://bad\<newline>'', ''B\<newline>sdns://ok\<newline>''] \<and>
   wellFormedPart ''A\<newline>sdns://bad\<newline>'' \<and>
   wellFormedPart ''B\<newline>sdns://ok\<newline>'' \<and>
   parsePart demoExt ''p-'' ''A\<newline>sdns://bad\<newline>''
     = StampError ''Invalid or unsupported stamp [sdns://bad]: invalid stamp'' \<and>
   parsePart demoExt ''p-'' ''B\<newline>sdns://ok\<newline>''
     = Registered \<lparr>server_name = ''p-B'', server_stamp = ''stamp-ok'',
                    server_description = []\<rparr> \<and>
   parseV2 demoExt (demoList ''## A\<newline>sdns://bad\<newline>## B\<newline>sdns://ok\<newline>'') ''p-''
     = ([\<lparr>server_name = ''p-B'', server_stamp = ''stamp-ok'', server_description = []\<rparr>],
        Some (StampErrors ''Invalid or unsupported stamp [sdns://bad]: invalid stamp''))"
proof -
  let ?s = "demoList ''## A\<newline>sdns://bad\<newline>## B\<newline>sdns://ok\<newline>''"
  let ?parts = "[''A\<newline>sdns://bad\<newline>'', ''B\<newline>sdns://ok\<newline>'']"
  have sp: "Split (in_data ?s) ''## '' = [] # ?parts"
    by (simp add: demoList_def Split_def)
  have ne: "?parts \<noteq> []" by simp
  have wa: "wellFormedPart ''A\<newline>sdns://bad\<newline>''"
    by (simp add: wellFormedPart_def parse_defs)
  have wb: "wellFormedPart ''B\<newline>sdns://ok\<newline>''"
    by (simp add: wellFormedPart_def parse_defs)
  have wf: "\<forall>p\<in>set ?parts. wellFormedPart p"
    using wa wb by simp
  have pa: "parsePart demoExt ''p-'' ''A\<newline>sdns://bad\<newline>''
     = StampError ''Invalid or unsupported stamp [sdns://bad]: invalid stamp''"
    by (simp add: parse_defs demo_defs)
  have pb: "parsePart demoExt ''p-'' ''B\<newline>sdns://ok\<newline>''
     = Registered \<lparr>server_name = ''p-B'', server_stamp = ''stamp-ok'',
                    server_description = []\<rparr>"
    by (simp add: parse_defs demo_defs)
  from conjunct1[OF parseV2_partial[OF sp ne wf, of demoExt "''p-''"]]
  have "parseV2 demoExt ?s ''p-'' =
           (entriesOf (map (parsePart demoExt ''p-'') ?parts),
            if stampErrsOf (map (parsePart demoExt ''p-'') ?parts) = [] then None
            else Some (StampErrors (Join (stampErrsOf (map (parsePart demoExt ''p-'') ?parts)) '', '')))" .
  then have "parseV2 demoExt ?s ''p-''
     = ([\<lparr>server_name = ''p-B'', server_stamp = ''stamp-ok'', server_description = []\<rparr>],
        Some (StampErrors ''Invalid or unsupported stamp [sdns://bad]: invalid stamp''))"
    by (simp add: pa pb)
  with sp wa wb pa pb show ?thesis by simp
qed

theorem parseV2_name_only_section_counterexample:
  "Split (in_data (demoList ''## A\<newline>## B\<newline>sdns://ok\<newline>'')) ''## ''
     = [[], ''A\<newline>'', ''B\<newline>sdns://ok\<newline>''] \<and>
   parsePart demoExt ''p-'' ''B\<newline>sdns://ok\<newline>''
     = Registered \<lparr>server_name = ''p-B'', server_stamp = ''stamp-ok'',
                    server_description = []\<rparr> \<and>
   parseV2 demoExt (demoList ''## A\<newline>## B\<newline>sdns://ok\<newline>'') ''p-''
     = ([], Some (InvalidFormat []))"
  by (simp add: parse_defs demo_defs demoList_def)

end
